theory Spec2Isabelle
  imports Complex_Main
begin

section \<open>Values and errors of the Python program\<close>

text \<open>
  \<^verbatim>\<open>process_frame\<close> of \<^verbatim>\<open>main.py\<close> returns one of three shapes: a status string, a
  triple \<^verbatim>\<open>(pitch, yaw, roll)\<close> of floats, or (when the loop over the detected faces
  ends without a \<^verbatim>\<open>return\<close>) Python's \<^verbatim>\<open>None\<close>. A float is modelled as the real
  number it stands for (the angles are finite: no NaN, no infinity). Comparison and
  \<^verbatim>\<open>abs\<close> are exact on floats; the subtraction of the classifier rounds its exact
  result to the nearest float64, as IEEE 754 has it (section \<open>Float subtraction\<close>);
  \<^verbatim>\<open>np.mean\<close>, whose result depends on the order in which numpy sums, is a parameter.
  A Python string is modelled as the list of its bytes; the code looks at the ASCII
  prefix \<^verbatim>\<open>data:\<close> and at the first comma only.
\<close>

datatype py_value = PyStr string | PyTuple real real real | PyNone

text \<open>
  The exceptions that leave the body of the \<^verbatim>\<open>while True\<close> loop: the two that the
  code of the handler raises by itself, and the \<^verbatim>\<open>cv2.error\<close> that \<^verbatim>\<open>cv2.imdecode\<close>
  raises in line 43, outside the \<^verbatim>\<open>try\<close> of lines 35-40. None is a
  \<^verbatim>\<open>WebSocketDisconnect\<close>, so none is caught by the handler.
\<close>

datatype py_error = TypeError | UnboundLocalError | Cv2Error

section \<open>The external libraries\<close>

text \<open>
  \<^verbatim>\<open>base64\<close>, \<^verbatim>\<open>cv2\<close>, \<^verbatim>\<open>mediapipe\<close> and \<^verbatim>\<open>numpy\<close> are not code of the repository.
  Their functions are parameters of the model, collected in one record; every theorem
  holds for all of them.
  \<^item> \<^verbatim>\<open>b64decode\<close> returns the bytes, or \<open>Inl\<close> the message of the exception it raised;
  \<^item> \<^verbatim>\<open>imdecode\<close> returns the image, or \<open>None\<close> when the buffer is not an image, or
    raises (\<open>Inl\<close>): OpenCV asserts that the buffer is not empty;
  \<^item> the other calls of \<^verbatim>\<open>cv2\<close> and \<^verbatim>\<open>mediapipe\<close> get arguments that the code has built
    (a decoded image, six pairs of points) and return;
  \<^item> \<^verbatim>\<open>face_mesh.process\<close> reads the module-level \<^verbatim>\<open>FaceMesh\<close> object, which tracks
    faces between calls (\<^verbatim>\<open>static_image_mode=False\<close>) and is shared by all sessions: its
    state at the time of the call is the argument of type \<open>'fm\<close>. The result is
    \<^verbatim>\<open>results.multi_face_landmarks\<close>: \<open>None\<close> or a list of faces. With
    \<^verbatim>\<open>refine_landmarks=True\<close> every face has all 478 landmarks, so a face is a total
    function from the index to the landmark;
  \<^item> \<^verbatim>\<open>np.mean\<close> is numpy's float64 mean of a list.
\<close>

type_synonym bytes = "nat list"

record ndarray =
  shape :: "nat \<times> nat \<times> nat"
  pixels :: "nat list"

record landmark =
  lm_x :: real
  lm_y :: real
  lm_z :: real

type_synonym face_landmarks = "nat \<Rightarrow> landmark"

record 'fm libs =
  b64decode :: "string \<Rightarrow> string + bytes"
  imdecode :: "bytes \<Rightarrow> py_error + ndarray option"
  cvtColor :: "ndarray \<Rightarrow> ndarray"
  face_mesh_process :: "'fm \<Rightarrow> ndarray \<Rightarrow> face_landmarks list option"
  solvePnP :: "(real \<times> real \<times> real) list \<Rightarrow> (real \<times> real) list \<Rightarrow> real list list
                 \<Rightarrow> real list \<Rightarrow> bool \<times> real list \<times> real list"
  Rodrigues :: "real list \<Rightarrow> real list list"
  RQDecomp3x3 :: "real list list \<Rightarrow> real \<times> real \<times> real"
  np_mean :: "real list \<Rightarrow> real"

section \<open>process_frame\<close>

subsection \<open>Lines 36-37: the metadata prefix\<close>

definition startswith :: "string \<Rightarrow> string \<Rightarrow> bool" where
  "startswith s p = (take (length p) s = p)"

text \<open>\<^verbatim>\<open>s.split(",", 1)\<close>: at most one split, at the first comma.\<close>

definition split_comma_1 :: "string \<Rightarrow> string list" where
  "split_comma_1 s =
     (if CHR '','' \<in> set s
      then [takeWhile (\<lambda>c. c \<noteq> CHR '','') s, tl (dropWhile (\<lambda>c. c \<noteq> CHR '','') s)]
      else [s])"

text \<open>
  \<^verbatim>\<open>if image_data.startswith("data:"): header, image_data = image_data.split(",", 1)\<close>.
  The result is the new value of \<^verbatim>\<open>image_data\<close>, or \<open>Inl\<close> the message of the
  \<^verbatim>\<open>ValueError\<close> that unpacking a one-element list into two names raises.
\<close>

definition strip_prefix :: "string \<Rightarrow> string + string" where
  "strip_prefix image_data =
     (if startswith image_data ''data:''
      then (case split_comma_1 image_data of
              [header, rest] \<Rightarrow> Inr rest
            | _ \<Rightarrow> Inl ''not enough values to unpack (expected 2, got 1)'')
      else Inr image_data)"

subsection \<open>Lines 55-106: the pose of the first face the solver converges on\<close>

definition model_points :: "(real \<times> real \<times> real) list" where
  "model_points =
     [(0.0, 0.0, 0.0),
      (0.0, -63.6, -12.5),
      (-43.3, 32.7, -26.0),
      (43.3, 32.7, -26.0),
      (-28.9, -28.9, -24.1),
      (28.9, -28.9, -24.1)]"

definition image_points :: "face_landmarks \<Rightarrow> real \<Rightarrow> real \<Rightarrow> (real \<times> real) list" where
  "image_points lms w h =
     [(lm_x (lms 1) * w, lm_y (lms 1) * h),
      (lm_x (lms 152) * w, lm_y (lms 152) * h),
      (lm_x (lms 33) * w, lm_y (lms 33) * h),
      (lm_x (lms 263) * w, lm_y (lms 263) * h),
      (lm_x (lms 61) * w, lm_y (lms 61) * h),
      (lm_x (lms 291) * w, lm_y (lms 291) * h)]"

definition camera_matrix :: "real \<Rightarrow> real \<Rightarrow> real list list" where
  "camera_matrix w h =
     (let focal_length = w; center = (w / 2, h / 2)
      in [[focal_length, 0, fst center],
          [0, focal_length, snd center],
          [0, 0, 1]])"

definition dist_coeffs :: "real list" where
  "dist_coeffs = [0, 0, 0, 0]"

text \<open>
  The \<^verbatim>\<open>for face_landmarks in results.multi_face_landmarks\<close> loop. It returns the
  angles of the first face on which \<^verbatim>\<open>solvePnP\<close> reports success. A face on which it
  reports failure has no \<^verbatim>\<open>else\<close> branch: the loop goes on, and when the list is
  exhausted the function ends without a \<^verbatim>\<open>return\<close>, which in Python returns
  \<^verbatim>\<open>None\<close>. The iris positions of lines 99-101 are computed and never used.
\<close>

fun faces_loop :: "'fm libs \<Rightarrow> real \<Rightarrow> real \<Rightarrow> face_landmarks list \<Rightarrow> py_value" where
  "faces_loop L w h [] = PyNone"
| "faces_loop L w h (lms # faces) =
     (case solvePnP L model_points (image_points lms w h) (camera_matrix w h) dist_coeffs of
        (success, rotation_vector, translation_vector) \<Rightarrow>
          if success
          then (let rotation_matrix = Rodrigues L rotation_vector
                in case RQDecomp3x3 L rotation_matrix of
                     (pitch, yaw, roll) \<Rightarrow> PyTuple pitch yaw roll)
          else faces_loop L w h faces)"

subsection \<open>Lines 42-106: from the decoded bytes to the result\<close>

text \<open>
  Nothing here is inside a \<^verbatim>\<open>try\<close>: an exception of \<^verbatim>\<open>cv2.imdecode\<close> leaves
  \<^verbatim>\<open>process_frame\<close> (\<open>Inl\<close>). \<^verbatim>\<open>np.frombuffer\<close> only views the bytes as an array.
\<close>

definition estimate_pose :: "'fm libs \<Rightarrow> 'fm \<Rightarrow> bytes \<Rightarrow> py_error + py_value" where
  "estimate_pose L fm img_bytes =
     (case imdecode L img_bytes of
        Inl e \<Rightarrow> Inl e
      | Inr None \<Rightarrow> Inr (PyStr ''Error: Invalid frame'')
      | Inr (Some frame) \<Rightarrow>
          (case shape frame of
             (h, w, _) \<Rightarrow>
               (case face_mesh_process L fm (cvtColor L frame) of
                  None \<Rightarrow> Inr (PyStr ''Pose Not Detected'')
                | Some [] \<Rightarrow> Inr (PyStr ''Pose Not Detected'')
                | Some faces \<Rightarrow> Inr (faces_loop L (real w) (real h) faces))))"

subsection \<open>Lines 35-40, then the rest\<close>

text \<open>
  The \<^verbatim>\<open>try\<close> block holds the split of the prefix and the call of \<^verbatim>\<open>b64decode\<close>; an
  exception of either becomes the status of line 40. \<open>Inr\<close> is the value returned,
  \<open>Inl\<close> an exception that leaves the function.
\<close>

definition process_frame :: "'fm libs \<Rightarrow> 'fm \<Rightarrow> string \<Rightarrow> py_error + py_value" where
  "process_frame L fm image_data =
     (case strip_prefix image_data of
        Inl e \<Rightarrow> Inr (PyStr (''Error: Decoding Base64 failed - '' @ e))
      | Inr stripped \<Rightarrow>
          (case b64decode L stripped of
             Inl e \<Rightarrow> Inr (PyStr (''Error: Decoding Base64 failed - '' @ e))
           | Inr img_bytes \<Rightarrow> estimate_pose L fm img_bytes))"

section \<open>Float subtraction\<close>

text \<open>
  \<^verbatim>\<open>pitch - baseline_pitch\<close> is a subtraction of two float64 values: its result is the
  exact difference rounded to the nearest float64, ties to the even significand. A
  float64 has a significand of 53 bits: in the binade \<open>2 ^ e \<le> a < 2 ^ (e + 1)\<close> two
  neighbours are \<open>2 ^ (e - 52)\<close> apart, for \<open>e\<close> from \<open>-1022\<close> to \<open>1023\<close>, and below
  \<open>2 ^ -1022\<close> (the subnormal numbers) the spacing stays that of the lowest binade.
  \<open>binade\<close> searches the exponent downwards from 1023. A result beyond the largest
  float64 would be an infinity in Python; the model leaves it finite and as large, which
  the comparison with 40 does not tell apart.
\<close>

fun binade_from :: "nat \<Rightarrow> int \<Rightarrow> real \<Rightarrow> int" where
  "binade_from 0 e a = e"
| "binade_from (Suc n) e a = (if 2 powi e \<le> a then e else binade_from n (e - 1) a)"

definition binade :: "real \<Rightarrow> int" where
  "binade a = binade_from 2045 1023 a"

definition ulp :: "real \<Rightarrow> real" where
  "ulp a = 2 powi (binade a - 52)"

definition round_half_even :: "real \<Rightarrow> int" where
  "round_half_even y =
     (let f = \<lfloor>y\<rfloor>
      in if y - of_int f < 1 / 2 then f
         else if 1 / 2 < y - of_int f then f + 1
         else if even f then f else f + 1)"

definition float64 :: "real \<Rightarrow> real" where
  "float64 x = sgn x * (of_int (round_half_even (\<bar>x\<bar> / ulp \<bar>x\<bar>)) * ulp \<bar>x\<bar>)"

section \<open>websocket_endpoint\<close>

text \<open>
  The locals of the handler. \<^verbatim>\<open>baseline_pitch\<close>, \<^verbatim>\<open>baseline_yaw\<close> and
  \<^verbatim>\<open>baseline_roll\<close> are unbound (\<open>None\<close>) until the assignment of lines 139-141.
\<close>

record session =
  calibration_frames :: int
  calibration_angles :: "py_value list"
  baseline_pitch :: "real option"
  baseline_yaw :: "real option"
  baseline_roll :: "real option"

definition new_session :: session where
  "new_session =
     \<lparr>calibration_frames = 10, calibration_angles = [],
      baseline_pitch = None, baseline_yaw = None, baseline_roll = None\<rparr>"

text \<open>
  \<^verbatim>\<open>angle[k]\<close> as an operand of \<^verbatim>\<open>np.mean\<close>. Subscripting \<^verbatim>\<open>None\<close> raises
  \<^verbatim>\<open>TypeError\<close>. A string is never appended to the list (line 129 sends strings the
  other way); subscripting one gives a character, on which \<^verbatim>\<open>np.mean\<close> raises a
  \<^verbatim>\<open>TypeError\<close> as well.
\<close>

fun subscript :: "py_value \<Rightarrow> nat \<Rightarrow> py_error + real" where
  "subscript (PyTuple p y r) k =
     (if k = 0 then Inr p else if k = 1 then Inr y else Inr r)"
| "subscript PyNone k = Inl TypeError"
| "subscript (PyStr s) k = Inl TypeError"

text \<open>The comprehension \<^verbatim>\<open>[angle[k] for angle in calibration_angles]\<close>.\<close>

fun column :: "nat \<Rightarrow> py_value list \<Rightarrow> py_error + real list" where
  "column k [] = Inr []"
| "column k (angle # angles) =
     (case subscript angle k of
        Inl e \<Rightarrow> Inl e
      | Inr v \<Rightarrow> (case column k angles of Inl e \<Rightarrow> Inl e | Inr vs \<Rightarrow> Inr (v # vs)))"

text \<open>
  Lines 146-158: the branch taken once \<^verbatim>\<open>calibration_frames\<close> is 0. Line 146 unpacks
  the result first (\<^verbatim>\<open>TypeError\<close> on \<^verbatim>\<open>None\<close>), lines 148-150 then read the baselines
  (\<^verbatim>\<open>UnboundLocalError\<close> if they were never assigned). The branch is entered only with
  a result that is not a string.
\<close>

definition classify :: "session \<Rightarrow> py_value \<Rightarrow> py_error + string" where
  "classify s result_base =
     (case result_base of
        PyTuple pitch yaw roll \<Rightarrow>
          (case (baseline_pitch s, baseline_yaw s, baseline_roll s) of
             (Some b_pitch, Some b_yaw, Some b_roll) \<Rightarrow>
               (let relative_pitch = \<bar>float64 (pitch - b_pitch)\<bar>;
                    relative_yaw = \<bar>float64 (yaw - b_yaw)\<bar>;
                    relative_roll = \<bar>float64 (roll - b_roll)\<bar>
                in if relative_pitch < 40 \<and> relative_yaw < 40 \<and> relative_roll < 40
                   then Inr ''Focused''
                   else Inr ''Not Focused'')
           | _ \<Rightarrow> Inl UnboundLocalError)
      | _ \<Rightarrow> Inl TypeError)"

text \<open>Lines 133-142: the branch taken while \<^verbatim>\<open>calibration_frames\<close> is not 0.\<close>

definition calibrate :: "'fm libs \<Rightarrow> session \<Rightarrow> py_value \<Rightarrow> py_error + session" where
  "calibrate L s result_base =
     (let s1 = s\<lparr>calibration_frames := calibration_frames s - 1,
                 calibration_angles := calibration_angles s @ [result_base]\<rparr>
      in if calibration_frames s1 = 0
         then (case column 0 (calibration_angles s1) of
                 Inl e \<Rightarrow> Inl e
               | Inr pitches \<Rightarrow>
                   (case column 1 (calibration_angles s1) of
                      Inl e \<Rightarrow> Inl e
                    | Inr yaws \<Rightarrow>
                        (case column 2 (calibration_angles s1) of
                           Inl e \<Rightarrow> Inl e
                         | Inr rolls \<Rightarrow>
                             Inr (s1\<lparr>baseline_pitch := Some (np_mean L pitches),
                                     baseline_yaw := Some (np_mean L yaws),
                                     baseline_roll := Some (np_mean L rolls)\<rparr>))))
         else Inr s1)"

text \<open>
  Lines 129-158: from the result of \<^verbatim>\<open>process_frame\<close> to the status that line 160
  sends, with the new values of the locals; \<open>Inl\<close> when an exception leaves the loop
  before anything is sent.
\<close>

definition ws_body :: "'fm libs \<Rightarrow> session \<Rightarrow> py_value \<Rightarrow> py_error + (session \<times> string)" where
  "ws_body L s result_base =
     (case result_base of
        PyStr status \<Rightarrow> Inr (s, status)
      | _ \<Rightarrow>
          if calibration_frames s \<noteq> 0
          then (case calibrate L s result_base of
                  Inl e \<Rightarrow> Inl e
                | Inr s' \<Rightarrow> Inr (s', ''Calculating Face Angles''))
          else (case classify s result_base of
                  Inl e \<Rightarrow> Inl e
                | Inr status \<Rightarrow> Inr (s, status)))"

text \<open>
  Lines 126-160, one turn of the loop for the frame received: \<^verbatim>\<open>process_frame\<close>, then
  the body above. An exception of either leaves the loop before line 160 sends anything.
\<close>

definition ws_iteration ::
  "'fm libs \<Rightarrow> session \<Rightarrow> 'fm \<Rightarrow> string \<Rightarrow> py_error + (session \<times> string)" where
  "ws_iteration L s fm image_data =
     (case process_frame L fm image_data of
        Inl e \<Rightarrow> Inl e
      | Inr result_base \<Rightarrow> ws_body L s result_base)"

text \<open>
  The \<^verbatim>\<open>while True\<close> loop over the frames that arrive before the client disconnects.
  Each frame comes with the state the shared \<^verbatim>\<open>FaceMesh\<close> object has when the frame is
  processed. The result is the list of the statuses sent, in order, and how the loop
  ended: \<open>Inr\<close> the locals when \<^verbatim>\<open>receive_text\<close> raised \<^verbatim>\<open>WebSocketDisconnect\<close>,
  \<open>Inl\<close> the exception that left the handler otherwise.
\<close>

fun ws_loop :: "'fm libs \<Rightarrow> session \<Rightarrow> ('fm \<times> string) list \<Rightarrow> string list \<times> (py_error + session)" where
  "ws_loop L s [] = ([], Inr s)"
| "ws_loop L s ((fm, image_data) # frames) =
     (case ws_iteration L s fm image_data of
        Inl e \<Rightarrow> ([], Inl e)
      | Inr (s', status) \<Rightarrow>
          (case ws_loop L s' frames of (sent, ending) \<Rightarrow> (status # sent, ending)))"

definition websocket_endpoint :: "'fm libs \<Rightarrow> ('fm \<times> string) list \<Rightarrow> string list \<times> (py_error + session)" where
  "websocket_endpoint L frames = ws_loop L new_session frames"

section \<open>Vocabulary of the properties\<close>

text \<open>A successful pose estimate is a result of \<^verbatim>\<open>process_frame\<close> that is a triple.\<close>

fun is_estimate :: "py_value \<Rightarrow> bool" where
  "is_estimate (PyTuple p y r) = True"
| "is_estimate v = False"

definition gives_estimate :: "'fm libs \<Rightarrow> 'fm \<times> string \<Rightarrow> bool" where
  "gives_estimate L frame =
     (case process_frame L (fst frame) (snd frame) of
        Inr v \<Rightarrow> is_estimate v
      | Inl e \<Rightarrow> False)"

text \<open>The successful estimates among the frames, in order, and their number.\<close>

fun estimates :: "'fm libs \<Rightarrow> ('fm \<times> string) list \<Rightarrow> (real \<times> real \<times> real) list" where
  "estimates L [] = []"
| "estimates L ((fm, image_data) # frames) =
     (case process_frame L fm image_data of
        Inr (PyTuple p y r) \<Rightarrow> (p, y, r) # estimates L frames
      | _ \<Rightarrow> estimates L frames)"

definition successes :: "'fm libs \<Rightarrow> ('fm \<times> string) list \<Rightarrow> nat" where
  "successes L frames = length (estimates L frames)"

definition is_classification :: "string \<Rightarrow> bool" where
  "is_classification status = (status = ''Focused'' \<or> status = ''Not Focused'')"

text \<open>The text of \<^verbatim>\<open>image_data\<close> after its first comma.\<close>

definition after_comma :: "string \<Rightarrow> string" where
  "after_comma s = tl (dropWhile (\<lambda>c. c \<noteq> CHR '','') s)"

text \<open>The estimates stored in \<^verbatim>\<open>calibration_angles\<close>.\<close>

definition stored_estimates :: "session \<Rightarrow> nat" where
  "stored_estimates s = length (filter is_estimate (calibration_angles s))"

text \<open>
  The results that line 129 does not take for a status (\<^verbatim>\<open>type(result_base)\<close> is not
  \<^verbatim>\<open>str\<close>), in order: these are the values that reach \<^verbatim>\<open>calibration_angles\<close>.
\<close>

fun is_str :: "py_value \<Rightarrow> bool" where
  "is_str (PyStr t) = True"
| "is_str v = False"

fun non_strings :: "'fm libs \<Rightarrow> ('fm \<times> string) list \<Rightarrow> py_value list" where
  "non_strings L [] = []"
| "non_strings L ((fm, image_data) # frames) =
     (case process_frame L fm image_data of
        Inr v \<Rightarrow> if is_str v then non_strings L frames else v # non_strings L frames
      | Inl e \<Rightarrow> non_strings L frames)"

definition triple :: "real \<times> real \<times> real \<Rightarrow> py_value" where
  "triple e = (case e of (p, y, r) \<Rightarrow> PyTuple p y r)"

subsection \<open>Invariants of the locals\<close>

text \<open>While the session calibrates, the three baselines are unbound.\<close>

definition unbound_while_calibrating :: "session \<Rightarrow> bool" where
  "unbound_while_calibrating s =
     (calibration_frames s = 0 \<or>
      (baseline_pitch s = None \<and> baseline_yaw s = None \<and> baseline_roll s = None))"

text \<open>
  The counter and the list move together: the counter is never negative, the list holds
  one entry per slot used, and once the counter is 0 every entry is an estimate (a
  \<^verbatim>\<open>None\<close> in the list makes line 139 raise, so the loop does not survive it).
\<close>

definition calibration_inv :: "session \<Rightarrow> bool" where
  "calibration_inv s =
     (0 \<le> calibration_frames s \<and>
      int (length (calibration_angles s)) + calibration_frames s = 10 \<and>
      (calibration_frames s = 0 \<longrightarrow> list_all is_estimate (calibration_angles s)))"

text \<open>
  What holds along a run in which no result is \<^verbatim>\<open>None\<close>: the list holds estimates
  only, and the baselines are bound once the counter is 0.
\<close>

definition estimates_only :: "session \<Rightarrow> bool" where
  "estimates_only s =
     (list_all is_estimate (calibration_angles s) \<and>
      (calibration_frames s \<noteq> 0 \<or>
       (baseline_pitch s \<noteq> None \<and> baseline_yaw s \<noteq> None \<and> baseline_roll s \<noteq> None)))"

section \<open>Stand-ins for the libraries, for concrete runs\<close>

text \<open>
  A concrete instance of the library record, used to run the handler on explicit frames.
  What the camera sees when a frame is processed plays the part of the detector state:
  no face, a face on which the solver does not converge, or a face with a given pose.
  The stand-in detector encodes the scene in landmarks 1 and 152, the stand-in solver
  reads it back from the image points (the stand-in image is one pixel wide and high).
  The stand-in base64 decoder drops the characters outside the base64 alphabet, as
  \<^verbatim>\<open>b64decode\<close> does, raises when the number of the others is not a multiple of four,
  and stands the characters for the bytes otherwise. The stand-in image decoder raises
  on the empty buffer, as \<^verbatim>\<open>cv2.imdecode\<close> does, finds no image in a buffer that
  begins with the byte of \<open>x\<close>, and an image of one pixel in any other.
\<close>

datatype scene = NoFace | Unsolvable | Pose real real real

definition stub_face :: "scene \<Rightarrow> face_landmarks" where
  "stub_face sc i =
     (case sc of
        Pose p y r \<Rightarrow>
          (if i = 1 then \<lparr>lm_x = p, lm_y = y, lm_z = 0\<rparr>
           else if i = 152 then \<lparr>lm_x = r, lm_y = 1, lm_z = 0\<rparr>
           else \<lparr>lm_x = 0, lm_y = 0, lm_z = 0\<rparr>)
      | _ \<Rightarrow> \<lparr>lm_x = 0, lm_y = 0, lm_z = 0\<rparr>)"

definition stub_solvePnP ::
  "(real \<times> real \<times> real) list \<Rightarrow> (real \<times> real) list \<Rightarrow> real list list \<Rightarrow> real list
     \<Rightarrow> bool \<times> real list \<times> real list" where
  "stub_solvePnP mp ip cm dc =
     (case ip of
        (p, y) # (r, ok) # _ \<Rightarrow> (ok \<noteq> 0, [p, y, r], [])
      | _ \<Rightarrow> (False, [], []))"

definition stub_RQDecomp3x3 :: "real list list \<Rightarrow> real \<times> real \<times> real" where
  "stub_RQDecomp3x3 m = (case m of [[p, y, r]] \<Rightarrow> (p, y, r) | _ \<Rightarrow> (0, 0, 0))"

definition stub_b64decode :: "string \<Rightarrow> string + bytes" where
  "stub_b64decode t =
     (let u = filter (\<lambda>c. c \<in> set
                ''ABCDEFGHIJKLMNOPQRSTUVWXYZabcdefghijklmnopqrstuvwxyz0123456789+/='') t
      in if length u mod 4 \<noteq> 0 then Inl ''Incorrect padding'' else Inr (map of_char u))"

definition stub_imdecode :: "bytes \<Rightarrow> py_error + ndarray option" where
  "stub_imdecode b =
     (if b = [] then Inl Cv2Error
      else if hd b = of_char CHR ''x'' then Inr None
      else Inr (Some \<lparr>shape = (1, 1, 3), pixels = b\<rparr>))"

definition stub_libs :: "scene libs" where
  "stub_libs =
     \<lparr>b64decode = stub_b64decode,
      imdecode = stub_imdecode,
      cvtColor = (\<lambda>a. a),
      face_mesh_process = (\<lambda>sc a. case sc of NoFace \<Rightarrow> None | _ \<Rightarrow> Some [stub_face sc]),
      solvePnP = stub_solvePnP,
      Rodrigues = (\<lambda>v. [v]),
      RQDecomp3x3 = stub_RQDecomp3x3,
      np_mean = (\<lambda>xs. sum_list xs / real (length xs))\<rparr>"

text \<open>
  Ten frames of a face at rest, and the locals after them: the scenario of ten estimates
  \<open>(0, 0, 0)\<close> followed by the frames to classify.
\<close>

definition still_frames :: "(scene \<times> string) list" where
  "still_frames = replicate 10 (Pose 0 0 0, ''AAAA'')"

definition calibrated_session :: session where
  "calibrated_session =
     \<lparr>calibration_frames = 0, calibration_angles = replicate 10 (PyTuple 0 0 0),
      baseline_pitch = Some 0, baseline_yaw = Some 0, baseline_roll = Some 0\<rparr>"

text \<open>
  Ten frames of a face whose pitch is \<open>2 ^ -70\<close> degrees, and the locals after them: a
  baseline so small that \<^verbatim>\<open>40.0 - baseline_pitch\<close> is computed as \<open>40.0\<close>.
\<close>

definition tiny_frames :: "(scene \<times> string) list" where
  "tiny_frames = replicate 10 (Pose (2 powi (- 70)) 0 0, ''AAAA'')"

definition tiny_session :: session where
  "tiny_session =
     \<lparr>calibration_frames = 0,
      calibration_angles = replicate 10 (PyTuple (2 powi (- 70)) 0 0),
      baseline_pitch = Some (2 powi (- 70)), baseline_yaw = Some 0, baseline_roll = Some 0\<rparr>"


section \<open>One iteration of the loop\<close>

lemma ws_body_PyStr: "ws_body L s (PyStr status) = Inr (s, status)"
  by (simp add: ws_body_def)

lemma column_Inr_estimates:
  "column k angles = Inr vs \<Longrightarrow> list_all is_estimate angles"
proof (induction angles arbitrary: vs)
  case Nil
  then show ?case by simp
next
  case (Cons a angles)
  then show ?case
    by (cases a) (auto split: sum.splits)
qed

lemma calibrate_counter:
  "calibrate L s v = Inr s' \<Longrightarrow>
     calibration_frames s' = calibration_frames s - 1 \<and>
     calibration_angles s' = calibration_angles s @ [v]"
  by (auto simp: calibrate_def Let_def split: if_splits sum.splits)

lemma calibrate_baseline_kept:
  "calibrate L s v = Inr s' \<Longrightarrow> calibration_frames s' \<noteq> 0 \<Longrightarrow>
     baseline_pitch s' = baseline_pitch s \<and> baseline_yaw s' = baseline_yaw s \<and>
     baseline_roll s' = baseline_roll s"
  by (auto simp: calibrate_def Let_def split: if_splits sum.splits)

lemma calibrate_final:
  "calibrate L s v = Inr s' \<Longrightarrow> calibration_frames s' = 0 \<Longrightarrow>
     list_all is_estimate (calibration_angles s') \<and>
     (\<exists>ps ys rs. column 0 (calibration_angles s') = Inr ps \<and>
        column 1 (calibration_angles s') = Inr ys \<and>
        column 2 (calibration_angles s') = Inr rs \<and>
        baseline_pitch s' = Some (np_mean L ps) \<and>
        baseline_yaw s' = Some (np_mean L ys) \<and>
        baseline_roll s' = Some (np_mean L rs))"
  by (auto simp: calibrate_def Let_def split: if_splits sum.splits dest: column_Inr_estimates)

lemma ws_body_cases:
  assumes "ws_body L s v = Inr (s', status)"
  obtains (string) "v = PyStr status" "s' = s"
    | (calibrating) "\<forall>t. v \<noteq> PyStr t" "calibration_frames s \<noteq> 0" "calibrate L s v = Inr s'"
        "status = ''Calculating Face Angles''"
    | (calibrated) "\<forall>t. v \<noteq> PyStr t" "calibration_frames s = 0" "classify s v = Inr status" "s' = s"
  using assms by (cases v) (auto simp: ws_body_def split: if_splits sum.splits)

lemma classify_status:
  "classify s v = Inr status \<Longrightarrow> is_estimate v \<and> is_classification status"
  by (cases v) (auto simp: classify_def is_classification_def Let_def split: option.splits if_splits)

lemma ws_body_counter:
  assumes "ws_body L s v = Inr (s', status)"
  shows "calibration_frames s' = calibration_frames s \<or>
         (calibration_frames s \<noteq> 0 \<and> calibration_frames s' = calibration_frames s - 1)"
  using assms by (cases rule: ws_body_cases) (auto dest: calibrate_counter)

lemma ws_body_calibrated:
  "ws_body L s v = Inr (s', status) \<Longrightarrow> calibration_frames s = 0 \<Longrightarrow> s' = s"
  by (erule ws_body_cases) auto

text \<open>
  A \<^verbatim>\<open>None\<close> in the list makes every comprehension of lines 139-141 raise, so a
  \<^verbatim>\<open>None\<close> result is survived only while at least two slots are left.
\<close>

lemma column_snoc_PyNone: "column k (angles @ [PyNone]) = Inl TypeError"
proof (induction angles)
  case Nil
  show ?case by simp
next
  case (Cons a angles)
  show ?case
  proof (cases a)
    case (PyTuple p y r)
    obtain v where "subscript a k = Inr v"
      unfolding PyTuple by (cases "k = 0"; cases "k = 1") simp_all
    with Cons.IH show ?thesis by simp
  qed simp_all
qed

lemma ws_body_PyNone:
  "ws_body L s PyNone =
     (if calibration_frames s = 0 \<or> calibration_frames s = 1 then Inl TypeError
      else Inr (s\<lparr>calibration_frames := calibration_frames s - 1,
                  calibration_angles := calibration_angles s @ [PyNone]\<rparr>,
                ''Calculating Face Angles''))"
  by (simp add: ws_body_def classify_def calibrate_def Let_def column_snoc_PyNone)

section \<open>Rounding to the nearest float64\<close>

lemma binade_from_bounds:
  "e - int n \<le> binade_from n e a \<and> binade_from n e a \<le> e"
proof (induction n arbitrary: e)
  case 0
  show ?case by simp
next
  case (Suc n)
  from Suc.IH[of "e - 1"] show ?case by auto
qed

lemma binade_from_ge:
  "2 powi e0 \<le> a \<Longrightarrow> e - int n \<le> e0 \<Longrightarrow> e0 \<le> e \<Longrightarrow>
     e0 \<le> binade_from n e a \<and> 2 powi (binade_from n e a) \<le> a"
proof (induction n arbitrary: e)
  case 0
  then show ?case by simp
next
  case (Suc n)
  show ?case
  proof (cases "2 powi e \<le> a")
    case True
    then show ?thesis using Suc.prems by simp
  next
    case False
    with Suc.prems(1) have "e \<noteq> e0" by auto
    with Suc.prems have "e - 1 - int n \<le> e0" "e0 \<le> e - 1" by auto
    from Suc.IH[OF Suc.prems(1) this] False show ?thesis by simp
  qed
qed

lemma binade_from_le:
  "a < 2 powi (e0 + 1) \<Longrightarrow> e - int n \<le> e0 \<Longrightarrow> binade_from n e a \<le> e0"
proof (induction n arbitrary: e)
  case 0
  then show ?case by simp
next
  case (Suc n)
  show ?case
  proof (cases "2 powi e \<le> a")
    case True
    with Suc.prems(1) have "(2::real) powi e < 2 powi (e0 + 1)" by simp
    then have "e < e0 + 1"
      by (metis linorder_not_less one_le_numeral power_int_increasing)
    with True show ?thesis by simp
  next
    case False
    from Suc.prems have "e - 1 - int n \<le> e0" by simp
    from Suc.IH[OF Suc.prems(1) this] False show ?thesis by simp
  qed
qed

lemma binade_range: "- 1022 \<le> binade a \<and> binade a \<le> 1023"
  using binade_from_bounds[of 1023 2045 a] unfolding binade_def by linarith

lemma binade_ge:
  "2 powi e0 \<le> a \<Longrightarrow> - 1022 \<le> e0 \<Longrightarrow> e0 \<le> 1023 \<Longrightarrow>
     e0 \<le> binade a \<and> 2 powi (binade a) \<le> a"
  using binade_from_ge[of e0 a 1023 2045] unfolding binade_def by linarith

lemma binade_le:
  "a < 2 powi (e0 + 1) \<Longrightarrow> - 1022 \<le> e0 \<Longrightarrow> binade a \<le> e0"
  using binade_from_le[of a e0 1023 2045] unfolding binade_def by linarith

lemma round_half_even_cases:
  obtains (down) "round_half_even y = \<lfloor>y\<rfloor>" "y - of_int \<lfloor>y\<rfloor> < 1 / 2"
    | (up) "round_half_even y = \<lfloor>y\<rfloor> + 1" "1 / 2 < y - of_int \<lfloor>y\<rfloor>"
    | (tie_even) "round_half_even y = \<lfloor>y\<rfloor>" "y - of_int \<lfloor>y\<rfloor> = 1 / 2" "even \<lfloor>y\<rfloor>"
    | (tie_odd) "round_half_even y = \<lfloor>y\<rfloor> + 1" "y - of_int \<lfloor>y\<rfloor> = 1 / 2" "odd \<lfloor>y\<rfloor>"
  unfolding round_half_even_def Let_def
  by (cases "y - of_int \<lfloor>y\<rfloor> < 1 / 2"; cases "1 / 2 < y - of_int \<lfloor>y\<rfloor>";
      cases "even \<lfloor>y\<rfloor>") auto

lemma round_half_even_ge: "of_int k \<le> y \<Longrightarrow> k \<le> round_half_even y"
proof -
  assume "of_int k \<le> y"
  then have "k \<le> \<lfloor>y\<rfloor>" by (simp add: le_floor_iff)
  then show ?thesis by (cases y rule: round_half_even_cases) simp_all
qed

lemma round_half_even_le: "y \<le> of_int k \<Longrightarrow> round_half_even y \<le> k"
proof (cases "y = of_int k")
  case True
  then show ?thesis by (simp add: round_half_even_def)
next
  case False
  assume "y \<le> of_int k"
  with False have "y < of_int k" by simp
  then have "\<lfloor>y\<rfloor> < k" by (simp add: floor_less_iff)
  then show ?thesis by (cases y rule: round_half_even_cases) simp_all
qed

lemma round_half_even_less_iff:
  assumes "even k"
  shows "round_half_even y < k \<longleftrightarrow> y < of_int k - 1 / 2"
proof
  assume less: "round_half_even y < k"
  show "y < of_int k - 1 / 2"
  proof (rule ccontr)
    assume "\<not> y < of_int k - 1 / 2"
    then have ge: "of_int k - 1 / 2 \<le> y" by simp
    then have "of_int (k - 1) \<le> y" by simp
    then have f: "k - 1 \<le> \<lfloor>y\<rfloor>" by (simp only: le_floor_iff)
    show False
    proof (cases "\<lfloor>y\<rfloor> = k - 1")
      case True
      then have r: "of_int \<lfloor>y\<rfloor> = of_int k - (1::real)" by simp
      from assms True have odd: "odd \<lfloor>y\<rfloor>" by simp
      from ge r have d: "1 / 2 \<le> y - of_int \<lfloor>y\<rfloor>" by linarith
      from less True d odd show False
        by (cases y rule: round_half_even_cases) simp_all
    next
      case False
      with f have "k \<le> \<lfloor>y\<rfloor>" by simp
      with less show False
        by (cases y rule: round_half_even_cases) simp_all
    qed
  qed
next
  assume lt: "y < of_int k - 1 / 2"
  then have "y < of_int k" by simp
  then have f: "\<lfloor>y\<rfloor> \<le> k - 1" by (simp add: floor_less_iff)
  show "round_half_even y < k"
  proof (cases "\<lfloor>y\<rfloor> = k - 1")
    case True
    then have r: "of_int \<lfloor>y\<rfloor> = of_int k - (1::real)" by simp
    from lt r have d: "y - of_int \<lfloor>y\<rfloor> < 1 / 2" by linarith
    from True d show ?thesis
      by (cases y rule: round_half_even_cases) simp_all
  next
    case False
    with f have "\<lfloor>y\<rfloor> + 1 < k" by simp
    then show ?thesis
      by (cases y rule: round_half_even_cases) simp_all
  qed
qed

lemma ulp_pos: "0 < ulp a"
  by (simp add: ulp_def)

lemma float64_abs:
  "\<bar>float64 x\<bar> = of_int (round_half_even (\<bar>x\<bar> / ulp \<bar>x\<bar>)) * ulp \<bar>x\<bar>"
proof -
  have "of_int 0 \<le> \<bar>x\<bar> / ulp \<bar>x\<bar>"
    using ulp_pos[of "\<bar>x\<bar>"] by simp
  then have "0 \<le> round_half_even (\<bar>x\<bar> / ulp \<bar>x\<bar>)"
    by (rule round_half_even_ge)
  then have m: "0 \<le> of_int (round_half_even (\<bar>x\<bar> / ulp \<bar>x\<bar>)) * ulp \<bar>x\<bar>"
    using ulp_pos[of "\<bar>x\<bar>"] by simp
  show ?thesis
  proof (cases "x = 0")
    case True
    then show ?thesis by (simp add: float64_def round_half_even_def)
  next
    case False
    then have "\<bar>sgn x\<bar> = 1" by (simp add: abs_sgn_eq)
    then have "\<bar>float64 x\<bar> = \<bar>of_int (round_half_even (\<bar>x\<bar> / ulp \<bar>x\<bar>)) * ulp \<bar>x\<bar>\<bar>"
      unfolding float64_def by (simp add: abs_mult)
    with m show ?thesis by (simp only: abs_of_nonneg)
  qed
qed

lemma magnitude_small:
  assumes "0 \<le> a" and "a < 32"
  shows "of_int (round_half_even (a / ulp a)) * ulp a \<le> 32"
proof -
  from assms(2) have "a < 2 powi (4 + 1)" by simp
  then have e: "binade a \<le> 4" by (rule binade_le) simp
  define n where "n = nat (57 - binade a)"
  from e have n: "int n = 57 - binade a" by (simp add: n_def)
  have "ulp a * 2 ^ n = 2 powi (binade a - 52) * 2 powi (int n)"
    by (simp add: ulp_def)
  also have "\<dots> = 2 powi (binade a - 52 + int n)"
    by (rule power_int_add[symmetric]) simp
  also have "\<dots> = 32"
    by (simp add: n)
  finally have u: "ulp a * 2 ^ n = 32" .
  then have "32 / ulp a = 2 ^ n"
    using ulp_pos[of a] by (simp add: field_simps)
  with assms(2) have "a / ulp a \<le> of_int (2 ^ n)"
    using ulp_pos[of a] by (simp add: field_simps)
  then have "round_half_even (a / ulp a) \<le> 2 ^ n"
    by (rule round_half_even_le)
  then have "of_int (round_half_even (a / ulp a)) \<le> (2::real) ^ n"
    by (metis of_int_le_iff of_int_numeral of_int_power)
  then have "of_int (round_half_even (a / ulp a)) * ulp a \<le> 2 ^ n * ulp a"
    using ulp_pos[of a] by (simp add: mult_right_mono)
  with u show ?thesis by (simp add: mult.commute)
qed

lemma magnitude_large:
  assumes "64 \<le> a"
  shows "64 \<le> of_int (round_half_even (a / ulp a)) * ulp a"
proof -
  from assms have "2 powi 6 \<le> a" by simp
  then have e: "6 \<le> binade a" "2 powi (binade a) \<le> a"
    using binade_ge[of 6 a] by simp_all
  have "ulp a * 2 ^ 52 = 2 powi (binade a - 52) * 2 powi 52"
    by (simp add: ulp_def)
  also have "\<dots> = 2 powi (binade a - 52 + 52)"
    by (rule power_int_add[symmetric]) simp
  finally have u: "ulp a * 2 ^ 52 = 2 powi (binade a)" by simp
  with e(2) have "of_int (2 ^ 52) \<le> a / ulp a"
    using ulp_pos[of a] by (simp add: field_simps)
  then have "2 ^ 52 \<le> round_half_even (a / ulp a)"
    by (rule round_half_even_ge)
  then have "(2::real) ^ 52 \<le> of_int (round_half_even (a / ulp a))"
    by (metis of_int_le_iff of_int_numeral of_int_power)
  then have "2 ^ 52 * ulp a \<le> of_int (round_half_even (a / ulp a)) * ulp a"
    using ulp_pos[of a] by (simp add: mult_right_mono)
  with u have "2 powi (binade a) \<le> of_int (round_half_even (a / ulp a)) * ulp a"
    by (simp add: mult.commute)
  moreover from e(1) have "(2::real) powi 6 \<le> 2 powi (binade a)"
    by (intro power_int_increasing) simp_all
  ultimately show ?thesis by simp
qed

lemma magnitude_middle:
  assumes "32 \<le> a" and "a < 64"
  shows "of_int (round_half_even (a / ulp a)) * ulp a < 40 \<longleftrightarrow> a < 40 - 2 powi (- 48)"
proof -
  from assms(1) have "2 powi 5 \<le> a" by simp
  then have "5 \<le> binade a" using binade_ge[of 5 a] by simp
  moreover from assms(2) have "a < 2 powi (5 + 1)" by simp
  then have "binade a \<le> 5" by (rule binade_le) simp
  ultimately have e: "binade a = 5" by simp
  then have u: "ulp a = 1 / 2 ^ 47" by (simp add: ulp_def power_int_def field_simps)
  have ev: "even (40 * 2 ^ 47 :: int)" by simp
  have "of_int (round_half_even (a / ulp a)) * ulp a < 40 \<longleftrightarrow>
        round_half_even (a * 2 ^ 47) < 40 * 2 ^ 47"
  proof -
    have "of_int (round_half_even (a * 2 ^ 47)) / (2::real) ^ 47 < 40 \<longleftrightarrow>
          of_int (round_half_even (a * 2 ^ 47)) < (of_int (40 * 2 ^ 47) :: real)"
      by (simp add: field_simps)
    also have "\<dots> \<longleftrightarrow> round_half_even (a * 2 ^ 47) < 40 * 2 ^ 47"
      by (simp only: of_int_less_iff)
    finally show ?thesis by (simp add: u)
  qed
  also have "\<dots> \<longleftrightarrow> a * 2 ^ 47 < of_int (40 * 2 ^ 47) - 1 / 2"
    by (rule round_half_even_less_iff[OF ev])
  also have "\<dots> \<longleftrightarrow> a < 40 - 2 powi (- 48)"
    by (simp add: power_int_def field_simps)
  finally show ?thesis .
qed

text \<open>
  The comparison of line 152 in terms of the exact difference: the computed difference is
  below 40 exactly when the exact one is below the midpoint of 40 and the float64 before
  it.
\<close>

lemma float64_less_40_iff: "\<bar>float64 x\<bar> < 40 \<longleftrightarrow> \<bar>x\<bar> < 40 - 2 powi (- 48)"
proof -
  have small: "(32::real) < 40 - 2 powi (- 48)"
    by (simp add: power_int_def field_simps)
  have big: "(40::real) - 2 powi (- 48) < 64"
    by (simp add: power_int_def field_simps)
  consider "\<bar>x\<bar> < 32" | "32 \<le> \<bar>x\<bar>" "\<bar>x\<bar> < 64" | "64 \<le> \<bar>x\<bar>" by linarith
  then show ?thesis
  proof cases
    case 1
    with magnitude_small[of "\<bar>x\<bar>"] small show ?thesis
      by (simp add: float64_abs)
  next
    case 2
    with magnitude_middle[of "\<bar>x\<bar>"] show ?thesis
      by (simp add: float64_abs)
  next
    case 3
    with magnitude_large[of "\<bar>x\<bar>"] big show ?thesis
      by (simp add: float64_abs)
  qed
qed


text \<open>
  From that midpoint up to 40 the exact difference is computed as exactly 40.0: so is
  \<^verbatim>\<open>40.0 - 2**-70\<close>.
\<close>

lemma float64_rounds_up_to_40:
  assumes "40 - 2 powi (- 48) \<le> a" and "a \<le> 40"
  shows "float64 a = 40"
proof -
  have lo: "(32::real) \<le> 40 - 2 powi (- 48)"
    by (simp add: power_int_def field_simps)
  with assms have pos: "0 < a" and a32: "32 \<le> a" and a64: "a < 64" by linarith+
  from a32 have "2 powi 5 \<le> a" by simp
  then have "5 \<le> binade a" using binade_ge[of 5 a] by simp
  moreover from a64 have "a < 2 powi (5 + 1)" by simp
  then have "binade a \<le> 5" by (rule binade_le) simp
  ultimately have "binade a = 5" by simp
  then have u: "ulp a = 1 / 2 ^ 47" by (simp add: ulp_def power_int_def field_simps)
  have ev: "even (40 * 2 ^ 47 :: int)" by simp
  from assms(1) have "\<not> a * 2 ^ 47 < of_int (40 * 2 ^ 47) - 1 / 2"
    by (simp add: power_int_def field_simps)
  with round_half_even_less_iff[OF ev, of "a * 2 ^ 47"]
  have "\<not> round_half_even (a * 2 ^ 47) < 40 * 2 ^ 47"
    by blast
  moreover from assms(2) have "a * 2 ^ 47 \<le> of_int (40 * 2 ^ 47)"
    by simp
  then have "round_half_even (a * 2 ^ 47) \<le> 40 * 2 ^ 47"
    by (rule round_half_even_le)
  ultimately have r: "round_half_even (a * 2 ^ 47) = 40 * 2 ^ 47" by simp
  have "a / ulp a = a * 2 ^ 47" unfolding u by simp
  with r have "of_int (round_half_even (a / ulp a)) * ulp a = of_int (40 * 2 ^ 47) / 2 ^ 47"
    unfolding u by simp
  also have "\<dots> = (40::real)" by simp
  finally show ?thesis
    using pos by (simp add: float64_def)
qed

lemma float64_tiny_baseline: "float64 (40 - 2 powi (- 70)) = 40"
  by (rule float64_rounds_up_to_40) (simp_all add: power_int_def field_simps)

section \<open>The strings that process_frame returns\<close>

lemma faces_loop_not_str: "faces_loop L w h faces \<noteq> PyStr t"
  by (induction faces) (auto simp: Let_def split: prod.splits)

lemma estimate_pose_str:
  "estimate_pose L fm img_bytes = Inr (PyStr t) \<Longrightarrow>
     t = ''Pose Not Detected'' \<or> startswith t ''Error:''"
  by (auto simp: estimate_pose_def startswith_def faces_loop_not_str
      simp del: faces_loop.simps
      split: sum.splits option.splits prod.splits list.splits)

lemma process_frame_str:
  "process_frame L fm d = Inr (PyStr t) \<Longrightarrow>
     t = ''Pose Not Detected'' \<or> startswith t ''Error:''"
  by (auto simp: process_frame_def startswith_def split: sum.splits
      dest: estimate_pose_str)

lemma process_frame_no_classification:
  "process_frame L fm d = Inr (PyStr t) \<Longrightarrow> \<not> is_classification t"
  by (auto dest!: process_frame_str simp: is_classification_def startswith_def)

lemma faces_loop_all_fail:
  assumes "\<forall>lms \<in> set faces.
     \<not> fst (solvePnP L model_points (image_points lms w h) (camera_matrix w h) dist_coeffs)"
  shows "faces_loop L w h faces = PyNone"
  using assms by (induction faces) (auto split: prod.splits)

lemma after_comma_shorter:
  "CHR '','' \<in> set s \<Longrightarrow> length (after_comma s) < length s"
proof -
  assume "CHR '','' \<in> set s"
  then have "dropWhile (\<lambda>c. c \<noteq> CHR '','') s \<noteq> []"
    by (simp add: dropWhile_eq_Nil_conv)
  then have "length (after_comma s) < length (dropWhile (\<lambda>c. c \<noteq> CHR '','') s)"
    by (simp add: after_comma_def)
  also have "\<dots> \<le> length s"
    by (rule length_dropWhile_le)
  finally show ?thesis .
qed

section \<open>Runs of the loop\<close>

lemma ws_loop_append:
  "ws_loop L s (earlier @ later) =
     (case ws_loop L s earlier of
        (sent, Inl e) \<Rightarrow> (sent, Inl e)
      | (sent, Inr s') \<Rightarrow> (case ws_loop L s' later of (sent', ending) \<Rightarrow> (sent @ sent', ending)))"
proof (induction earlier arbitrary: s)
  case Nil
  then show ?case by (simp split: prod.splits)
next
  case (Cons f earlier)
  obtain fm d where f: "f = (fm, d)" by (cases f)
  show ?case
    unfolding f by (simp add: Cons.IH split: sum.splits prod.splits)
qed

lemma ws_loop_continue:
  assumes "ws_loop L s earlier = (sent, Inr s1)" "ws_loop L s (earlier @ later) = (sent2, ending)"
  shows "\<exists>sent'. ws_loop L s1 later = (sent', ending) \<and> sent2 = sent @ sent'"
  using assms by (auto simp: ws_loop_append split: prod.splits)

lemma ws_loop_length:
  "ws_loop L s frames = (sent, Inr s') \<Longrightarrow> length sent = length frames"
proof (induction frames arbitrary: s sent)
  case Nil
  then show ?case by simp
next
  case (Cons f frames)
  obtain fm d where f: "f = (fm, d)" by (cases f)
  from Cons.prems show ?case
    unfolding f by (auto split: sum.splits prod.splits dest: Cons.IH)
qed

lemma ws_loop_counter:
  "ws_loop L s frames = (sent, Inr s') \<Longrightarrow> 0 \<le> calibration_frames s \<Longrightarrow>
     calibration_frames s' \<le> calibration_frames s \<and>
     calibration_frames s - int (length frames) \<le> calibration_frames s' \<and>
     0 \<le> calibration_frames s' \<and>
     (calibration_frames s = 0 \<longrightarrow> calibration_frames s' = 0)"
proof (induction frames arbitrary: s sent)
  case Nil
  then show ?case by simp
next
  case (Cons f frames)
  obtain fm d where f: "f = (fm, d)" by (cases f)
  from Cons.prems(1) obtain v s1 status sent1 where
    step: "ws_body L s v = Inr (s1, status)" and
    rest: "ws_loop L s1 frames = (sent1, Inr s')"
    unfolding f by (auto simp: ws_iteration_def split: sum.splits prod.splits)
  from ws_body_counter[OF step] Cons.prems(2)
  have c: "0 \<le> calibration_frames s1" "calibration_frames s1 \<le> calibration_frames s"
    "calibration_frames s - 1 \<le> calibration_frames s1"
    "calibration_frames s = 0 \<longrightarrow> calibration_frames s1 = 0"
    by auto
  from Cons.IH[OF rest c(1)] c show ?case by auto
qed

lemma ws_loop_calibrated:
  "ws_loop L s frames = (sent, Inr s') \<Longrightarrow> calibration_frames s = 0 \<Longrightarrow> s' = s"
proof (induction frames arbitrary: sent)
  case Nil
  then show ?case by simp
next
  case (Cons f frames)
  obtain fm d where f: "f = (fm, d)" by (cases f)
  from Cons.prems(1) obtain v s1 status sent1 where
    step: "ws_body L s v = Inr (s1, status)" and
    rest: "ws_loop L s1 frames = (sent1, Inr s')"
    unfolding f by (auto simp: ws_iteration_def split: sum.splits prod.splits)
  from ws_body_calibrated[OF step Cons.prems(2)] have "s1 = s" .
  with Cons.IH rest Cons.prems(2) show ?case by simp
qed

subsection \<open>The invariants hold along every run\<close>

lemma ws_body_unbound:
  assumes "ws_body L s v = Inr (s', status)" "unbound_while_calibrating s"
  shows "unbound_while_calibrating s'"
  using assms(1)
proof (cases rule: ws_body_cases)
  case calibrating
  show ?thesis
  proof (cases "calibration_frames s' = 0")
    case True
    then show ?thesis by (simp add: unbound_while_calibrating_def)
  next
    case False
    from calibrate_baseline_kept[OF calibrating(3) False] assms(2) calibrating(2)
    show ?thesis by (simp add: unbound_while_calibrating_def)
  qed
qed (use assms(2) in auto)

lemma ws_loop_unbound:
  "ws_loop L s frames = (sent, Inr s') \<Longrightarrow> unbound_while_calibrating s \<Longrightarrow>
     unbound_while_calibrating s'"
proof (induction frames arbitrary: s sent)
  case Nil
  then show ?case by simp
next
  case (Cons f frames)
  obtain fm d where f: "f = (fm, d)" by (cases f)
  from Cons.prems(1) obtain v s1 status sent1 where
    step: "ws_body L s v = Inr (s1, status)" and
    rest: "ws_loop L s1 frames = (sent1, Inr s')"
    unfolding f by (auto simp: ws_iteration_def split: sum.splits prod.splits)
  from Cons.IH[OF rest ws_body_unbound[OF step Cons.prems(2)]] show ?case .
qed

lemma new_session_unbound: "unbound_while_calibrating new_session"
  by (simp add: unbound_while_calibrating_def new_session_def)

lemma new_session_counter: "calibration_frames new_session = 10"
  by (simp add: new_session_def)

lemma endpoint_counter_nonneg:
  "websocket_endpoint L frames = (sent, Inr s) \<Longrightarrow> 0 \<le> calibration_frames s"
  using ws_loop_counter[of L new_session frames sent s]
  by (simp add: websocket_endpoint_def new_session_def)

lemma endpoint_unbound:
  "websocket_endpoint L frames = (sent, Inr s) \<Longrightarrow> unbound_while_calibrating s"
  unfolding websocket_endpoint_def by (rule ws_loop_unbound[OF _ new_session_unbound])

lemma new_session_inv: "calibration_inv new_session"
  by (simp add: calibration_inv_def new_session_def)

lemma ws_body_inv:
  assumes "ws_body L s v = Inr (s', status)" "calibration_inv s"
  shows "calibration_inv s'"
  using assms(1)
proof (cases rule: ws_body_cases)
  case calibrating
  from calibrate_counter[OF calibrating(3)] calibrate_final[OF calibrating(3)]
    calibrating(2) assms(2)
  show ?thesis by (auto simp: calibration_inv_def)
qed (use assms(2) in auto)

lemma stored_estimates_full:
  assumes "calibration_inv s" "calibration_frames s = 0"
  shows "stored_estimates s = 10"
proof -
  from assms have "length (calibration_angles s) = 10"
    and "list_all is_estimate (calibration_angles s)"
    by (auto simp: calibration_inv_def)
  then show ?thesis
    by (simp add: stored_estimates_def list_all_iff)
qed

lemma gives_estimate_Inr:
  "process_frame L fm d = Inr v \<Longrightarrow> gives_estimate L (fm, d) = is_estimate v"
  by (simp add: gives_estimate_def)

lemma successes_Cons:
  "successes L ((fm, d) # frames) =
     (if gives_estimate L (fm, d) then 1 else 0) + successes L frames"
proof (cases "process_frame L fm d")
  case (Inl e)
  then show ?thesis by (simp add: successes_def gives_estimate_def)
next
  case (Inr v)
  then show ?thesis by (cases v) (simp_all add: successes_def gives_estimate_def)
qed

lemma successes_Nil: "successes L [] = 0"
  by (simp add: successes_def)

lemma ws_body_stored:
  assumes "ws_body L s v = Inr (s', status)"
  shows "stored_estimates s' \<le> stored_estimates s + (if is_estimate v then 1 else 0)"
  using assms
  by (cases rule: ws_body_cases) (auto simp: stored_estimates_def dest: calibrate_counter)

lemma ws_loop_classification:
  assumes "ws_loop L s frames = (sent, ending)" and "i < length sent"
    and "calibration_inv s" and "stored_estimates s \<le> k"
  shows "(is_classification (sent ! i) \<longrightarrow> 10 \<le> k + successes L (take i frames)) \<and>
         (gives_estimate L (frames ! i) \<and> k + successes L (take i frames) = 9 \<longrightarrow>
          sent ! i = ''Calculating Face Angles'')"
  using assms
proof (induction frames arbitrary: s sent i k)
  case Nil
  then show ?case by simp
next
  case (Cons f frames)
  obtain fm d where f: "f = (fm, d)" by (cases f)
  from Cons.prems(1,2) obtain v s1 status sent1 where
    pf: "process_frame L fm d = Inr v" and
    step: "ws_body L s v = Inr (s1, status)" and
    rest: "ws_loop L s1 frames = (sent1, ending)" and
    sent: "sent = status # sent1"
    unfolding f by (auto simp: ws_iteration_def split: sum.splits prod.splits)
  note ge = gives_estimate_Inr[OF pf]
  have inv1: "calibration_inv s1"
    by (rule ws_body_inv[OF step Cons.prems(3)])
  have stored1: "stored_estimates s1 \<le> k + (if gives_estimate L (fm, d) then 1 else 0)"
    using ws_body_stored[OF step] Cons.prems(4) by (simp add: ge)
  show ?case
  proof (cases i)
    case 0
    from step show ?thesis
    proof (cases rule: ws_body_cases)
      case string
      with pf have "\<not> is_classification status"
        by (auto dest: process_frame_no_classification)
      with string show ?thesis
        using 0 sent f by (simp add: ge)
    next
      case calibrating
      then show ?thesis
        using 0 sent by (simp add: is_classification_def)
    next
      case calibrated
      from stored_estimates_full[OF Cons.prems(3) calibrated(2)] Cons.prems(4)
      have "10 \<le> k" by simp
      then show ?thesis using 0 by (simp add: successes_Nil)
    qed
  next
    case (Suc j)
    with Cons.prems(2) sent have j: "j < length sent1" by simp
    from Cons.IH[OF rest j inv1 stored1]
    show ?thesis
      using Suc sent f by (simp add: successes_Cons add.assoc)
  qed
qed

subsection \<open>What the list collects\<close>

lemma non_strings_append:
  "non_strings L (earlier @ later) = non_strings L earlier @ non_strings L later"
  by (induction earlier) (auto split: sum.splits)

lemma non_strings_estimates:
  "list_all is_estimate (take n (non_strings L frames)) \<Longrightarrow>
     take n (non_strings L frames) = map triple (take n (estimates L frames))"
proof (induction frames arbitrary: n)
  case Nil
  then show ?case by simp
next
  case (Cons f frames)
  obtain fm d where f: "f = (fm, d)" by (cases f)
  show ?case
  proof (cases n)
    case 0
    then show ?thesis by simp
  next
    case (Suc m)
    show ?thesis
    proof (cases "process_frame L fm d")
      case (Inl e)
      with Cons show ?thesis unfolding f by simp
    next
      case (Inr v)
      with Cons Suc show ?thesis
        unfolding f by (cases v) (auto simp: triple_def)
    qed
  qed
qed

lemma column_triples:
  "column 0 (map triple es) = Inr (map fst es) \<and>
   column 1 (map triple es) = Inr (map (fst \<circ> snd) es) \<and>
   column 2 (map triple es) = Inr (map (snd \<circ> snd) es)"
  by (induction es) (auto simp: triple_def)

lemma ws_loop_collects:
  "ws_loop L new_session frames = (sent, Inr s) \<Longrightarrow>
     calibration_angles s = take 10 (non_strings L frames) \<and> calibration_inv s \<and>
     (calibration_frames s = 0 \<longrightarrow>
        (\<exists>ps ys rs. column 0 (calibration_angles s) = Inr ps \<and>
           column 1 (calibration_angles s) = Inr ys \<and>
           column 2 (calibration_angles s) = Inr rs \<and>
           baseline_pitch s = Some (np_mean L ps) \<and>
           baseline_yaw s = Some (np_mean L ys) \<and>
           baseline_roll s = Some (np_mean L rs)))"
proof (induction frames arbitrary: sent s rule: rev_induct)
  case Nil
  then show ?case
    using new_session_inv by (auto simp: new_session_def)
next
  case (snoc f frames)
  obtain fm d where f: "f = (fm, d)" by (cases f)
  from snoc.prems obtain sent1 s1 status v where
    earlier: "ws_loop L new_session frames = (sent1, Inr s1)" and
    pf: "process_frame L fm d = Inr v" and
    step: "ws_body L s1 v = Inr (s, status)"
    unfolding f
    by (auto simp: ws_loop_append ws_iteration_def split: prod.splits sum.splits)
  note IH = snoc.IH[OF earlier]
  from step show ?case
  proof (cases rule: ws_body_cases)
    case string
    with IH pf show ?thesis
      unfolding f by (auto simp: non_strings_append)
  next
    case calibrating
    from calibrating(1) have v: "\<not> is_str v" by (cases v) auto
    from IH calibrating(2) have short: "length (take 10 (non_strings L frames)) < 10"
      by (auto simp: calibration_inv_def)
    then have whole: "take 10 (non_strings L frames) = non_strings L frames"
      by (simp add: min_def split: if_splits)
    from calibrate_counter[OF calibrating(3)] IH whole short v pf
    have angles: "calibration_angles s = take 10 (non_strings L (frames @ [f]))"
      unfolding f by (simp add: non_strings_append)
    from angles ws_body_inv[OF step] IH calibrate_final[OF calibrating(3)]
    show ?thesis by blast
  next
    case calibrated
    from IH calibrated(2) have "length (take 10 (non_strings L frames)) = 10"
      by (auto simp: calibration_inv_def)
    then have "10 \<le> length (non_strings L frames)" by simp
    with IH calibrated(4) show ?thesis
      by (auto simp: non_strings_append)
  qed
qed

subsection \<open>When process_frame returns and never returns None, the loop is total\<close>

lemma column_estimates_Inr:
  "list_all is_estimate angles \<Longrightarrow> \<exists>vs. column k angles = Inr vs"
proof (induction angles)
  case Nil
  show ?case by simp
next
  case (Cons a angles)
  then obtain vs where vs: "column k angles = Inr vs" by auto
  from Cons.prems obtain p y r where a: "a = PyTuple p y r" by (cases a) auto
  obtain v where "subscript a k = Inr v"
    unfolding a by (cases "k = 0"; cases "k = 1") simp_all
  with vs show ?case by simp
qed

lemma ws_body_total:
  assumes "v \<noteq> PyNone" and "estimates_only s"
  shows "\<exists>s' status. ws_body L s v = Inr (s', status) \<and> estimates_only s'"
proof (cases v)
  case (PyStr t)
  with assms(2) show ?thesis by (simp add: ws_body_def)
next
  case (PyTuple p y r)
  show ?thesis
  proof (cases "calibration_frames s = 0")
    case True
    with assms(2) obtain p0 y0 r0 where
      "baseline_pitch s = Some p0" "baseline_yaw s = Some y0" "baseline_roll s = Some r0"
      by (auto simp: estimates_only_def)
    with True assms(2) show ?thesis
      unfolding PyTuple by (simp add: ws_body_def classify_def Let_def)
  next
    case False
    let ?angles = "calibration_angles s @ [PyTuple p y r]"
    from assms(2) have all: "list_all is_estimate ?angles"
      by (simp add: estimates_only_def)
    from column_estimates_Inr[OF all, of 0] column_estimates_Inr[OF all, of 1]
      column_estimates_Inr[OF all, of 2]
    obtain ps ys rs where "column 0 ?angles = Inr ps" "column 1 ?angles = Inr ys"
      "column 2 ?angles = Inr rs"
      by auto
    with False all show ?thesis
      unfolding PyTuple by (simp add: ws_body_def calibrate_def Let_def estimates_only_def)
  qed
next
  case PyNone
  with assms(1) show ?thesis by simp
qed

lemma ws_loop_total:
  assumes "\<forall>(fm, d) \<in> set frames. \<exists>v. process_frame L fm d = Inr v \<and> v \<noteq> PyNone"
    and "estimates_only s"
  shows "\<exists>sent s'. ws_loop L s frames = (sent, Inr s') \<and> length sent = length frames"
  using assms
proof (induction frames arbitrary: s)
  case Nil
  then show ?case by simp
next
  case (Cons f frames)
  obtain fm d where f: "f = (fm, d)" by (cases f)
  from Cons.prems(1) obtain v where pf: "process_frame L fm d = Inr v" and v: "v \<noteq> PyNone"
    unfolding f by auto
  from Cons.prems(1)
  have rest: "\<forall>(fm, d) \<in> set frames. \<exists>v. process_frame L fm d = Inr v \<and> v \<noteq> PyNone"
    by simp
  from ws_body_total[OF v Cons.prems(2)] obtain s1 status where
    step: "ws_body L s v = Inr (s1, status)" and inv: "estimates_only s1"
    by blast
  from Cons.IH[OF rest inv] obtain sent s' where
    "ws_loop L s1 frames = (sent, Inr s')" "length sent = length frames"
    by blast
  with step pf show ?case
    unfolding f by (simp add: ws_iteration_def)
qed

lemma loop_total_without_None:
  assumes "\<forall>(fm, d) \<in> set frames. \<exists>v. process_frame L fm d = Inr v \<and> v \<noteq> PyNone"
  shows "\<exists>sent s. websocket_endpoint L frames = (sent, Inr s) \<and> length sent = length frames"
  unfolding websocket_endpoint_def
  by (rule ws_loop_total[OF assms]) (simp add: estimates_only_def new_session_def)


section \<open>Concrete runs\<close>

lemmas stub_defs =
  process_frame_def estimate_pose_def strip_prefix_def startswith_def split_comma_1_def
  stub_libs_def stub_b64decode_def stub_imdecode_def stub_face_def stub_solvePnP_def
  stub_RQDecomp3x3_def image_points_def

lemma stub_pose: "process_frame stub_libs (Pose p y r) ''AAAA'' = Inr (PyTuple p y r)"
  by (simp add: stub_defs)

lemma stub_unsolvable: "process_frame stub_libs Unsolvable ''AAAA'' = Inr PyNone"
  by (simp add: stub_defs)

lemma stub_noface: "process_frame stub_libs NoFace ''AAAA'' = Inr (PyStr ''Pose Not Detected'')"
  by (simp add: stub_defs)

lemma stub_empty: "process_frame stub_libs fm '''' = Inl Cv2Error"
  by (simp add: stub_defs)

lemma stub_np_mean: "np_mean stub_libs xs = sum_list xs / real (length xs)"
  by (simp add: stub_libs_def)

lemma stub_no_comma:
  "strip_prefix ''data:image/jpeg;base64'' =
     Inl ''not enough values to unpack (expected 2, got 1)''"
  by (simp add: strip_prefix_def startswith_def split_comma_1_def)

lemma still_run:
  "websocket_endpoint stub_libs still_frames =
     (replicate 10 ''Calculating Face Angles'', Inr calibrated_session)"
  by (simp add: websocket_endpoint_def still_frames_def calibrated_session_def new_session_def
      numeral_eq_Suc ws_iteration_def stub_pose ws_body_def calibrate_def Let_def stub_np_mean)

lemma tiny_run:
  "websocket_endpoint stub_libs tiny_frames =
     (replicate 10 ''Calculating Face Angles'', Inr tiny_session)"
  by (simp add: websocket_endpoint_def tiny_frames_def tiny_session_def new_session_def
      numeral_eq_Suc ws_iteration_def stub_pose ws_body_def calibrate_def Let_def stub_np_mean)

lemma stub_gives_estimate: "gives_estimate stub_libs (Pose p y r, ''AAAA'')"
  by (simp add: gives_estimate_def stub_pose)

lemma calibrated_focused:
  "ws_iteration stub_libs calibrated_session (Pose 5 5 5) ''AAAA'' =
     Inr (calibrated_session, ''Focused'')"
  by (simp add: ws_iteration_def stub_pose ws_body_def classify_def Let_def
      calibrated_session_def float64_less_40_iff power_int_def field_simps)

lemma calibrated_not_focused:
  "ws_iteration stub_libs calibrated_session (Pose 45 0 0) ''AAAA'' =
     Inr (calibrated_session, ''Not Focused'')"
  by (simp add: ws_iteration_def stub_pose ws_body_def classify_def Let_def
      calibrated_session_def float64_less_40_iff power_int_def field_simps)

lemma calibrated_noface:
  "ws_iteration stub_libs calibrated_session NoFace ''AAAA'' =
     Inr (calibrated_session, ''Pose Not Detected'')"
  by (simp add: ws_iteration_def stub_noface ws_body_PyStr)

section \<open>The claims\<close>

subsection \<open>C1: detection failures\<close>

text \<open>
  A frame in which the detector finds no face (\<^verbatim>\<open>multi_face_landmarks\<close> is
  \<^verbatim>\<open>None\<close> or empty) is answered with \<open>Pose Not Detected\<close> and leaves the locals as
  they were.
\<close>

lemma no_face_keeps_session:
  assumes "strip_prefix image_data = Inr stripped"
    and "b64decode L stripped = Inr img_bytes"
    and "imdecode L img_bytes = Inr (Some frame)"
    and "face_mesh_process L fm (cvtColor L frame) = None \<or>
         face_mesh_process L fm (cvtColor L frame) = Some []"
  shows "process_frame L fm image_data = Inr (PyStr ''Pose Not Detected'') \<and>
         ws_iteration L s fm image_data = Inr (s, ''Pose Not Detected'')"
proof -
  from assms have "process_frame L fm image_data = Inr (PyStr ''Pose Not Detected'')"
    by (auto simp: process_frame_def estimate_pose_def split: prod.splits)
  then show ?thesis by (simp add: ws_iteration_def ws_body_PyStr)
qed

text \<open>
  Claim C1: every detection failure, a frame without a face or a frame on which the
  perspective-n-point solver does not converge, is answered with \<open>Pose Not Detected\<close>
  and leaves the calibration counter and list unchanged.

  The code does this for a frame without a face only. On a fresh session, a frame with a
  face on which \<^verbatim>\<open>solvePnP\<close> reports failure is answered with
  \<open>Calculating Face Angles\<close>, the counter goes from 10 to 9 and \<^verbatim>\<open>None\<close> is appended
  to the list: line 87 has no \<^verbatim>\<open>else\<close>, so \<^verbatim>\<open>process_frame\<close> returns \<^verbatim>\<open>None\<close>,
  which line 129 does not take for a status.
\<close>

theorem solver_failure_consumes_slot:
  "websocket_endpoint stub_libs [(Unsolvable, ''AAAA'')] =
     ([''Calculating Face Angles''],
      Inr (new_session\<lparr>calibration_frames := 9, calibration_angles := [PyNone]\<rparr>))"
  by (simp add: websocket_endpoint_def ws_iteration_def stub_unsolvable ws_body_PyNone
      new_session_def)

subsection \<open>C2: the classification threshold\<close>

text \<open>
  Claim C2: once the baseline \<open>(p0, y0, r0)\<close> exists, a frame with the estimate
  \<open>(pitch, yaw, roll)\<close> is answered with \<open>Focused\<close> if and only if all three absolute
  differences, as lines 148-150 compute them in float64, are strictly below 40, and with
  \<open>Not Focused\<close> otherwise; the locals are left as they were. A computed difference of
  exactly 40.0 gives \<open>Not Focused\<close>. In terms of the exact differences: the three
  computed ones are below 40 exactly when the exact ones are below \<open>40 - 2 ^ -48\<close>, so
  an exact difference of 40 or more gives \<open>Not Focused\<close> as well, and so does one that
  float64 rounds up to 40.0.
\<close>

theorem classification_threshold:
  assumes "websocket_endpoint L frames = (sent, Inr s)"
    and "baseline_pitch s = Some p0" and "baseline_yaw s = Some y0"
    and "baseline_roll s = Some r0"
    and "process_frame L fm image_data = Inr (PyTuple pitch yaw roll)"
  shows "websocket_endpoint L (frames @ [(fm, image_data)]) =
           (sent @ [if \<bar>float64 (pitch - p0)\<bar> < 40 \<and> \<bar>float64 (yaw - y0)\<bar> < 40 \<and>
                       \<bar>float64 (roll - r0)\<bar> < 40
                    then ''Focused'' else ''Not Focused''], Inr s) \<and>
         ((\<bar>float64 (pitch - p0)\<bar> < 40 \<and> \<bar>float64 (yaw - y0)\<bar> < 40 \<and>
           \<bar>float64 (roll - r0)\<bar> < 40) \<longleftrightarrow>
          (\<bar>pitch - p0\<bar> < 40 - 2 powi (- 48) \<and> \<bar>yaw - y0\<bar> < 40 - 2 powi (- 48) \<and>
           \<bar>roll - r0\<bar> < 40 - 2 powi (- 48)))"
proof -
  from endpoint_unbound[OF assms(1)] assms(2) have "calibration_frames s = 0"
    by (simp add: unbound_while_calibrating_def)
  then have "ws_body L s (PyTuple pitch yaw roll) =
      Inr (s, if \<bar>float64 (pitch - p0)\<bar> < 40 \<and> \<bar>float64 (yaw - y0)\<bar> < 40 \<and>
                 \<bar>float64 (roll - r0)\<bar> < 40
              then ''Focused'' else ''Not Focused'')"
    using assms(2-4) by (simp add: ws_body_def classify_def Let_def)
  with assms(1,5) have "websocket_endpoint L (frames @ [(fm, image_data)]) =
           (sent @ [if \<bar>float64 (pitch - p0)\<bar> < 40 \<and> \<bar>float64 (yaw - y0)\<bar> < 40 \<and>
                       \<bar>float64 (roll - r0)\<bar> < 40
                    then ''Focused'' else ''Not Focused''], Inr s)"
    by (simp add: websocket_endpoint_def ws_loop_append ws_iteration_def)
  then show ?thesis
    by (simp only: float64_less_40_iff simp_thms)
qed

theorem classification_threshold_witness:
  "websocket_endpoint stub_libs still_frames =
     (replicate 10 ''Calculating Face Angles'', Inr calibrated_session) \<and>
   process_frame stub_libs (Pose 40 0 0) ''AAAA'' = Inr (PyTuple 40 0 0) \<and>
   websocket_endpoint stub_libs (still_frames @ [(Pose 40 0 0, ''AAAA'')]) =
     (replicate 10 ''Calculating Face Angles'' @ [''Not Focused''], Inr calibrated_session) \<and>
   process_frame stub_libs (Pose 39.9 39.9 39.9) ''AAAA'' = Inr (PyTuple 39.9 39.9 39.9) \<and>
   websocket_endpoint stub_libs (still_frames @ [(Pose 39.9 39.9 39.9, ''AAAA'')]) =
     (replicate 10 ''Calculating Face Angles'' @ [''Focused''], Inr calibrated_session) \<and>
   websocket_endpoint stub_libs tiny_frames =
     (replicate 10 ''Calculating Face Angles'', Inr tiny_session) \<and>
   baseline_pitch tiny_session = Some (2 powi (- 70)) \<and>
   \<bar>40 - 2 powi (- 70)\<bar> < (40::real) \<and> float64 (40 - 2 powi (- 70)) = 40 \<and>
   websocket_endpoint stub_libs (tiny_frames @ [(Pose 40 0 0, ''AAAA'')]) =
     (replicate 10 ''Calculating Face Angles'' @ [''Not Focused''], Inr tiny_session)"
proof -
  have b: "baseline_pitch calibrated_session = Some 0" "baseline_yaw calibrated_session = Some 0"
    "baseline_roll calibrated_session = Some 0"
    by (simp_all add: calibrated_session_def)
  have t: "baseline_pitch tiny_session = Some (2 powi (- 70))" "baseline_yaw tiny_session = Some 0"
    "baseline_roll tiny_session = Some 0"
    by (simp_all add: tiny_session_def)
  have exact: "\<bar>40 - 2 powi (- 70)\<bar> < (40::real)"
    by (simp add: power_int_def field_simps)
  from classification_threshold[OF still_run b stub_pose[of 40 0 0]]
  have r1: "websocket_endpoint stub_libs (still_frames @ [(Pose 40 0 0, ''AAAA'')]) =
     (replicate 10 ''Calculating Face Angles'' @ [''Not Focused''], Inr calibrated_session)"
    by (simp add: float64_less_40_iff power_int_def field_simps)
  from classification_threshold[OF still_run b stub_pose[of "39.9" "39.9" "39.9"]]
  have r2: "websocket_endpoint stub_libs (still_frames @ [(Pose 39.9 39.9 39.9, ''AAAA'')]) =
     (replicate 10 ''Calculating Face Angles'' @ [''Focused''], Inr calibrated_session)"
    by (simp add: float64_less_40_iff power_int_def field_simps)
  from classification_threshold[OF tiny_run t stub_pose[of 40 0 0]]
  have r3: "websocket_endpoint stub_libs (tiny_frames @ [(Pose 40 0 0, ''AAAA'')]) =
     (replicate 10 ''Calculating Face Angles'' @ [''Not Focused''], Inr tiny_session)"
    by (simp add: float64_less_40_iff power_int_def field_simps)
  from r1 r2 r3 still_run tiny_run t(1) exact float64_tiny_baseline
    stub_pose[of 40 0 0] stub_pose[of "39.9" "39.9" "39.9"]
  show ?thesis by simp
qed

subsection \<open>C3: the baseline\<close>

text \<open>
  Claim C3 says that the baseline is the component-wise mean of the ten collected
  estimates and that ten equal estimates \<open>(p, y, r)\<close> give exactly the baseline
  \<open>(p, y, r)\<close>. The first half is the lemma below, for every \<^verbatim>\<open>np.mean\<close>: when the
  counter has reached 0, at least ten frames gave an estimate, and each baseline is
  \<^verbatim>\<open>np.mean\<close> of that component of the first ten estimates (frames answered with a
  status in between are skipped). The second half is an equality of float64 values: it
  depends on how \<^verbatim>\<open>np.mean\<close> rounds the sum of ten equal doubles and its quotient by
  10, which is not a property of the code of the repository and is not stated here.
\<close>

lemma baseline_is_np_mean_of_first_ten:
  assumes "websocket_endpoint L frames = (sent, Inr s)" and "calibration_frames s = 0"
  shows "10 \<le> successes L frames \<and>
         baseline_pitch s = Some (np_mean L (map fst (take 10 (estimates L frames)))) \<and>
         baseline_yaw s = Some (np_mean L (map (fst \<circ> snd) (take 10 (estimates L frames)))) \<and>
         baseline_roll s = Some (np_mean L (map (snd \<circ> snd) (take 10 (estimates L frames))))"
proof -
  from assms(1) have c: "calibration_angles s = take 10 (non_strings L frames)"
    "calibration_inv s"
    by (simp_all add: websocket_endpoint_def ws_loop_collects)
  from c assms(2) have all: "list_all is_estimate (take 10 (non_strings L frames))"
    and len: "length (calibration_angles s) = 10"
    by (auto simp: calibration_inv_def)
  from non_strings_estimates[OF all] c(1)
  have angles: "calibration_angles s = map triple (take 10 (estimates L frames))"
    by simp
  from len angles have "10 \<le> successes L frames"
    by (simp add: successes_def)
  moreover from assms ws_loop_collects[of L frames sent s]
  have "\<exists>ps ys rs. column 0 (calibration_angles s) = Inr ps \<and>
           column 1 (calibration_angles s) = Inr ys \<and>
           column 2 (calibration_angles s) = Inr rs \<and>
           baseline_pitch s = Some (np_mean L ps) \<and>
           baseline_yaw s = Some (np_mean L ys) \<and>
           baseline_roll s = Some (np_mean L rs)"
    by (auto simp: websocket_endpoint_def)
  ultimately show ?thesis
    unfolding angles using column_triples[of "take 10 (estimates L frames)"] by auto
qed

subsection \<open>C4: no classification before ten estimates\<close>

text \<open>
  Claim C4: a status \<open>Focused\<close> or \<open>Not Focused\<close> is sent for frame \<open>i\<close> only if at
  least ten of the frames before it gave a successful estimate; and the frame that gives
  the tenth successful estimate is itself answered with \<open>Calculating Face Angles\<close>, so
  the first classification comes with a later frame. (\<open>sent ! i\<close> is the status sent
  for \<open>frames ! i\<close>.)
\<close>

theorem no_classification_before_ten:
  assumes "websocket_endpoint L frames = (sent, ending)" and "i < length sent"
  shows "(is_classification (sent ! i) \<longrightarrow> 10 \<le> successes L (take i frames)) \<and>
         (gives_estimate L (frames ! i) \<and> successes L (take i frames) = 9 \<longrightarrow>
          sent ! i = ''Calculating Face Angles'')"
  using ws_loop_classification[of L new_session frames sent ending i 0] assms new_session_inv
  by (simp add: websocket_endpoint_def stored_estimates_def new_session_def)

theorem no_classification_before_ten_witness:
  "websocket_endpoint stub_libs (still_frames @ [(Pose 5 5 5, ''AAAA'')]) =
     (replicate 10 ''Calculating Face Angles'' @ [''Focused''], Inr calibrated_session) \<and>
   is_classification ((replicate 10 ''Calculating Face Angles'' @ [''Focused'']) ! 10) \<and>
   10 \<le> successes stub_libs (take 10 (still_frames @ [(Pose 5 5 5, ''AAAA'')])) \<and>
   gives_estimate stub_libs ((still_frames @ [(Pose 5 5 5, ''AAAA'')]) ! 9) \<and>
   successes stub_libs (take 9 (still_frames @ [(Pose 5 5 5, ''AAAA'')])) = 9 \<and>
   (replicate 10 ''Calculating Face Angles'' @ [''Focused'']) ! 9 = ''Calculating Face Angles''"
proof -
  have run: "websocket_endpoint stub_libs (still_frames @ [(Pose 5 5 5, ''AAAA'')]) =
     (replicate 10 ''Calculating Face Angles'' @ [''Focused''], Inr calibrated_session)"
    using still_run
    by (simp add: websocket_endpoint_def ws_loop_append calibrated_focused)
  have c: "is_classification ((replicate 10 ''Calculating Face Angles'' @ [''Focused'']) ! 10)"
    by (simp add: nth_append is_classification_def)
  have e: "gives_estimate stub_libs ((still_frames @ [(Pose 5 5 5, ''AAAA'')]) ! 9)"
    by (simp add: still_frames_def nth_append stub_gives_estimate)
  have n: "successes stub_libs (take 9 (still_frames @ [(Pose 5 5 5, ''AAAA'')])) = 9"
    by (simp add: still_frames_def numeral_eq_Suc successes_Cons successes_Nil
        stub_gives_estimate)
  from no_classification_before_ten[OF run, of 10] no_classification_before_ten[OF run, of 9]
    run c e n
  show ?thesis by simp
qed

subsection \<open>C5: one status per frame\<close>

text \<open>
  Claim C5: whatever the frame, the loop sends exactly one status for it and goes on to
  the next frame; only a disconnect ends the session.

  The code does not: once the session is calibrated, a frame with a face on which
  \<^verbatim>\<open>solvePnP\<close> reports failure makes line 146 unpack \<^verbatim>\<open>None\<close>. The \<^verbatim>\<open>TypeError\<close>
  is not a \<^verbatim>\<open>WebSocketDisconnect\<close>, so it leaves the handler: nothing is sent for that
  frame, and the frame after it is never read. Here twelve frames arrive and ten statuses
  are sent. This is the same missing \<^verbatim>\<open>else\<close> of line 87 as in C1. A frame whose
  bytes are empty ends the session as well, at any time (see C6). A run in which
  \<^verbatim>\<open>process_frame\<close> returns for every frame, and never \<^verbatim>\<open>None\<close>, does send one status
  per frame and ends with the disconnect only.
\<close>

theorem solver_failure_ends_session:
  "websocket_endpoint stub_libs
     (still_frames @ [(Unsolvable, ''AAAA''), (Pose 0 0 0, ''AAAA'')]) =
     (replicate 10 ''Calculating Face Angles'', Inl TypeError)"
  using still_run
  by (simp add: websocket_endpoint_def ws_loop_append ws_iteration_def stub_unsolvable
      ws_body_PyNone calibrated_session_def)

subsection \<open>C6: decoding failures\<close>

text \<open>
  The decoding failures that the code reports: the \<^verbatim>\<open>try\<close> block of lines 35-40 raises
  (in the split of the prefix or in \<^verbatim>\<open>b64decode\<close>), or \<^verbatim>\<open>imdecode\<close> returns
  \<^verbatim>\<open>None\<close>. Such a frame is answered with a status that begins with \<open>Error:\<close>, the
  locals are left as they were, and the loop goes on with the next frames.
\<close>

lemma reported_decode_failure_keeps_session:
  assumes "(\<exists>e. strip_prefix image_data = Inl e) \<or>
           (\<exists>stripped e. strip_prefix image_data = Inr stripped \<and> b64decode L stripped = Inl e) \<or>
           (\<exists>stripped img_bytes. strip_prefix image_data = Inr stripped \<and>
              b64decode L stripped = Inr img_bytes \<and> imdecode L img_bytes = Inr None)"
  shows "\<exists>status. startswith status ''Error:'' \<and>
           process_frame L fm image_data = Inr (PyStr status) \<and>
           ws_iteration L s fm image_data = Inr (s, status) \<and>
           ws_loop L s ((fm, image_data) # frames) =
             (status # fst (ws_loop L s frames), snd (ws_loop L s frames))"
proof -
  from assms obtain status where
    st: "process_frame L fm image_data = Inr (PyStr status)" "startswith status ''Error:''"
    by (auto simp: process_frame_def estimate_pose_def startswith_def)
  then show ?thesis
    by (auto simp: ws_iteration_def ws_body_PyStr split: prod.splits)
qed

text \<open>
  The decoding failure that the code does not report: \<^verbatim>\<open>imdecode\<close> raises. Line 43 is
  outside the \<^verbatim>\<open>try\<close>, so the exception leaves \<^verbatim>\<open>process_frame\<close> and then the handler,
  in whatever state the session is: nothing is sent, no later frame is read.
\<close>

lemma imdecode_exception_ends_session:
  assumes "strip_prefix image_data = Inr stripped"
    and "b64decode L stripped = Inr img_bytes"
    and "imdecode L img_bytes = Inl e"
  shows "ws_loop L s ((fm, image_data) # frames) = ([], Inl e)"
  using assms by (simp add: ws_iteration_def process_frame_def estimate_pose_def)

text \<open>
  Claim C6: every frame whose payload fails base64 decoding or image decoding is answered
  with a status that begins with \<open>Error:\<close>, leaves the session state unchanged, and the
  loop goes on with the next frame.

  The code does not for the empty payload: \<^verbatim>\<open>b64decode\<close> of the empty text is the
  empty bytes object, on which \<^verbatim>\<open>cv2.imdecode\<close> does not return \<^verbatim>\<open>None\<close> but raises
  \<^verbatim>\<open>cv2.error\<close>. Two frames arrive, the first with the empty payload: no status is
  sent and the handler is left by the exception. The same happens for every payload that
  decodes to no bytes, such as \<^verbatim>\<open>data:,\<close>.
\<close>

theorem empty_payload_ends_session:
  "websocket_endpoint stub_libs [(Pose 0 0 0, ''''), (Pose 0 0 0, ''AAAA'')] =
     ([], Inl Cv2Error)"
  by (simp add: websocket_endpoint_def ws_iteration_def stub_empty)

subsection \<open>C7: the baseline never changes\<close>

text \<open>
  Claim C7: once the three baselines are bound, they have the same values after any
  number of further frames, for as long as the session lives.
\<close>

theorem baseline_never_changes:
  assumes "websocket_endpoint L earlier = (sent, Inr s)"
    and "baseline_pitch s = Some p0" and "baseline_yaw s = Some y0"
    and "baseline_roll s = Some r0"
    and "websocket_endpoint L (earlier @ later) = (sent', Inr s')"
  shows "baseline_pitch s' = Some p0 \<and> baseline_yaw s' = Some y0 \<and>
         baseline_roll s' = Some r0"
proof -
  from assms(1,5) obtain sent2 where later: "ws_loop L s later = (sent2, Inr s')"
    unfolding websocket_endpoint_def by (blast dest: ws_loop_continue)
  from endpoint_unbound[OF assms(1)] assms(2) have "calibration_frames s = 0"
    by (simp add: unbound_while_calibrating_def)
  from ws_loop_calibrated[OF later this] assms(2-4) show ?thesis by simp
qed

theorem baseline_never_changes_witness:
  "websocket_endpoint stub_libs still_frames =
     (replicate 10 ''Calculating Face Angles'', Inr calibrated_session) \<and>
   websocket_endpoint stub_libs
     (still_frames @ [(Pose 45 0 0, ''AAAA''), (NoFace, ''AAAA''), (Pose 5 5 5, ''AAAA'')]) =
     (replicate 10 ''Calculating Face Angles'' @ [''Not Focused'', ''Pose Not Detected'', ''Focused''],
      Inr calibrated_session) \<and>
   baseline_pitch calibrated_session = Some 0 \<and> baseline_yaw calibrated_session = Some 0 \<and>
   baseline_roll calibrated_session = Some 0"
proof -
  have b: "baseline_pitch calibrated_session = Some 0" "baseline_yaw calibrated_session = Some 0"
    "baseline_roll calibrated_session = Some 0"
    by (simp_all add: calibrated_session_def)
  have h2: "websocket_endpoint stub_libs
     (still_frames @ [(Pose 45 0 0, ''AAAA''), (NoFace, ''AAAA''), (Pose 5 5 5, ''AAAA'')]) =
     (replicate 10 ''Calculating Face Angles'' @ [''Not Focused'', ''Pose Not Detected'', ''Focused''],
      Inr calibrated_session)"
    using still_run
    by (simp add: websocket_endpoint_def ws_loop_append calibrated_focused
        calibrated_not_focused calibrated_noface)
  from baseline_never_changes[OF still_run b h2] still_run h2 show ?thesis by simp
qed

subsection \<open>C8: the calibration counter\<close>

text \<open>
  Claim C8: the counter \<^verbatim>\<open>calibration_frames\<close> starts at 10, and between any two
  points of a session it does not increase, it decreases by at most one per frame
  processed, it is never negative, and once it is 0 it stays 0.
\<close>

theorem calibration_counter_monotone:
  assumes "websocket_endpoint L earlier = (sent, Inr s)"
    and "websocket_endpoint L (earlier @ later) = (sent', Inr s')"
  shows "calibration_frames new_session = 10 \<and>
         calibration_frames s' \<le> calibration_frames s \<and>
         calibration_frames s - int (length later) \<le> calibration_frames s' \<and>
         0 \<le> calibration_frames s' \<and>
         (calibration_frames s = 0 \<longrightarrow> calibration_frames s' = 0)"
proof -
  from assms obtain sent2 where later: "ws_loop L s later = (sent2, Inr s')"
    unfolding websocket_endpoint_def by (blast dest: ws_loop_continue)
  from ws_loop_counter[OF later endpoint_counter_nonneg[OF assms(1)]]
  show ?thesis by (simp add: new_session_counter)
qed

theorem calibration_counter_monotone_witness:
  "websocket_endpoint stub_libs [(Pose 0 0 0, ''AAAA'')] =
     ([''Calculating Face Angles''],
      Inr (new_session\<lparr>calibration_frames := 9, calibration_angles := [PyTuple 0 0 0]\<rparr>)) \<and>
   websocket_endpoint stub_libs
     ([(Pose 0 0 0, ''AAAA'')] @ [(NoFace, ''AAAA''), (Pose 1 2 3, ''AAAA'')]) =
     ([''Calculating Face Angles'', ''Pose Not Detected'', ''Calculating Face Angles''],
      Inr (new_session\<lparr>calibration_frames := 8,
             calibration_angles := [PyTuple 0 0 0, PyTuple 1 2 3]\<rparr>)) \<and>
   calibration_frames new_session = 10 \<and>
   (8::int) \<le> 9 \<and> (9::int) - int (length [(NoFace, ''AAAA''), (Pose 1 2 3, ''AAAA'')]) \<le> 8 \<and>
   (0::int) \<le> 8 \<and>
   websocket_endpoint stub_libs still_frames =
     (replicate 10 ''Calculating Face Angles'', Inr calibrated_session) \<and>
   websocket_endpoint stub_libs (still_frames @ [(Pose 5 5 5, ''AAAA'')]) =
     (replicate 10 ''Calculating Face Angles'' @ [''Focused''], Inr calibrated_session) \<and>
   calibration_frames calibrated_session = 0"
proof -
  have h1: "websocket_endpoint stub_libs [(Pose 0 0 0, ''AAAA'')] =
     ([''Calculating Face Angles''],
      Inr (new_session\<lparr>calibration_frames := 9, calibration_angles := [PyTuple 0 0 0]\<rparr>))"
    by (simp add: websocket_endpoint_def ws_iteration_def stub_pose ws_body_def calibrate_def
        Let_def new_session_def)
  have h2: "websocket_endpoint stub_libs
     ([(Pose 0 0 0, ''AAAA'')] @ [(NoFace, ''AAAA''), (Pose 1 2 3, ''AAAA'')]) =
     ([''Calculating Face Angles'', ''Pose Not Detected'', ''Calculating Face Angles''],
      Inr (new_session\<lparr>calibration_frames := 8,
             calibration_angles := [PyTuple 0 0 0, PyTuple 1 2 3]\<rparr>))"
    by (simp add: websocket_endpoint_def ws_iteration_def stub_pose stub_noface ws_body_def
        calibrate_def Let_def new_session_def)
  have h3: "websocket_endpoint stub_libs (still_frames @ [(Pose 5 5 5, ''AAAA'')]) =
     (replicate 10 ''Calculating Face Angles'' @ [''Focused''], Inr calibrated_session)"
    using still_run
    by (simp add: websocket_endpoint_def ws_loop_append calibrated_focused)
  have z: "calibration_frames calibrated_session = 0"
    by (simp add: calibrated_session_def)
  from calibration_counter_monotone[OF h1 h2] calibration_counter_monotone[OF still_run h3]
    h1 h2 h3 still_run z
  show ?thesis by simp
qed

subsection \<open>C9: what a solver failure returns\<close>

text \<open>
  Claim C9: when the frame decodes, the detector finds faces and \<^verbatim>\<open>solvePnP\<close> reports
  failure on each of them (with \<^verbatim>\<open>max_num_faces=1\<close>: on the one face), the result of
  \<^verbatim>\<open>process_frame\<close> is \<^verbatim>\<open>None\<close>, and the loop treats it as an estimate, not as a
  detection failure: the answer is never \<open>Pose Not Detected\<close> with the locals
  unchanged; with at least two slots left the frame uses a slot and is answered with
  \<open>Calculating Face Angles\<close>, otherwise a \<^verbatim>\<open>TypeError\<close> leaves the loop.
\<close>

theorem solver_failure_returns_None:
  assumes "strip_prefix image_data = Inr stripped"
    and "b64decode L stripped = Inr img_bytes"
    and "imdecode L img_bytes = Inr (Some frame)"
    and "shape frame = (h, w, c)"
    and "face_mesh_process L fm (cvtColor L frame) = Some faces"
    and "faces \<noteq> []"
    and "\<forall>lms \<in> set faces.
           \<not> fst (solvePnP L model_points (image_points lms (real w) (real h))
                     (camera_matrix (real w) (real h)) dist_coeffs)"
  shows "process_frame L fm image_data = Inr PyNone \<and>
         ws_iteration L s fm image_data \<noteq> Inr (s, ''Pose Not Detected'') \<and>
         ws_iteration L s fm image_data =
           (if calibration_frames s = 0 \<or> calibration_frames s = 1 then Inl TypeError
            else Inr (s\<lparr>calibration_frames := calibration_frames s - 1,
                        calibration_angles := calibration_angles s @ [PyNone]\<rparr>,
                      ''Calculating Face Angles''))"
proof -
  have "faces_loop L (real w) (real h) faces = PyNone"
    by (rule faces_loop_all_fail[OF assms(7)])
  with assms(1-6) have none: "process_frame L fm image_data = Inr PyNone"
    by (cases faces) (simp_all add: process_frame_def estimate_pose_def del: faces_loop.simps)
  show ?thesis
    by (simp add: ws_iteration_def none ws_body_PyNone)
qed

theorem solver_failure_returns_None_witness:
  "face_mesh_process stub_libs Unsolvable
     (cvtColor stub_libs \<lparr>shape = (1, 1, 3), pixels = map of_char ''AAAA''\<rparr>) =
     Some [stub_face Unsolvable] \<and>
   \<not> fst (solvePnP stub_libs model_points (image_points (stub_face Unsolvable) (real 1) (real 1))
           (camera_matrix (real 1) (real 1)) dist_coeffs) \<and>
   process_frame stub_libs Unsolvable ''AAAA'' = Inr PyNone \<and>
   ws_iteration stub_libs new_session Unsolvable ''AAAA'' =
     Inr (new_session\<lparr>calibration_frames := 9, calibration_angles := [PyNone]\<rparr>,
          ''Calculating Face Angles'')"
proof -
  have h1: "strip_prefix ''AAAA'' = Inr ''AAAA''"
    by (simp add: strip_prefix_def startswith_def)
  have h2: "b64decode stub_libs ''AAAA'' = Inr (map of_char ''AAAA'')"
    by (simp add: stub_libs_def stub_b64decode_def)
  have h3: "imdecode stub_libs (map of_char ''AAAA'') =
      Inr (Some \<lparr>shape = (1, 1, 3), pixels = map of_char ''AAAA''\<rparr>)"
    by (simp add: stub_libs_def stub_imdecode_def)
  have h4: "shape \<lparr>shape = (1, 1, 3), pixels = map of_char ''AAAA''\<rparr> = (1, 1, 3)"
    by simp
  have h5: "face_mesh_process stub_libs Unsolvable
     (cvtColor stub_libs \<lparr>shape = (1, 1, 3), pixels = map of_char ''AAAA''\<rparr>) =
     Some [stub_face Unsolvable]"
    by (simp add: stub_libs_def)
  have h6: "[stub_face Unsolvable] \<noteq> []"
    by simp
  have h7: "\<not> fst (solvePnP stub_libs model_points (image_points (stub_face Unsolvable) (real 1) (real 1))
           (camera_matrix (real 1) (real 1)) dist_coeffs)"
    by (simp add: stub_libs_def stub_solvePnP_def image_points_def stub_face_def)
  then have h8: "\<forall>lms \<in> set [stub_face Unsolvable].
      \<not> fst (solvePnP stub_libs model_points (image_points lms (real 1) (real 1))
           (camera_matrix (real 1) (real 1)) dist_coeffs)"
    by simp
  from solver_failure_returns_None[OF h1 h2 h3 h4 h5 h6 h8, of new_session] h5 h7
  show ?thesis by (auto simp: new_session_def)
qed

subsection \<open>C10: the metadata prefix\<close>

text \<open>
  The result of \<^verbatim>\<open>process_frame\<close> depends on \<^verbatim>\<open>b64decode\<close> through one text only: the
  payload after its first comma when the payload begins with \<open>data:\<close>, the whole
  payload otherwise. A decoder that agrees with \<^verbatim>\<open>b64decode\<close> on that text gives the
  same result.
\<close>

lemma faces_loop_other_decoder:
  "faces_loop (L\<lparr>b64decode := f\<rparr>) w h faces = faces_loop L w h faces"
  by (induction faces) (simp_all split: prod.splits)

lemma estimate_pose_other_decoder:
  "estimate_pose (L\<lparr>b64decode := f\<rparr>) fm img_bytes = estimate_pose L fm img_bytes"
  by (simp add: estimate_pose_def faces_loop_other_decoder del: faces_loop.simps
      split: sum.splits option.splits prod.splits list.splits)

lemma decoder_is_given:
  assumes "f (if startswith image_data ''data:'' then after_comma image_data else image_data) =
           b64decode L (if startswith image_data ''data:'' then after_comma image_data
                        else image_data)"
  shows "process_frame (L\<lparr>b64decode := f\<rparr>) fm image_data = process_frame L fm image_data"
proof (cases "startswith image_data ''data:''")
  case True
  with assms show ?thesis
    by (simp add: process_frame_def strip_prefix_def split_comma_1_def
        after_comma_def [symmetric] estimate_pose_other_decoder split: sum.splits)
next
  case False
  with assms show ?thesis
    by (simp add: process_frame_def strip_prefix_def estimate_pose_other_decoder
        split: sum.splits)
qed

text \<open>
  Claim C10: the text given to the base64 decoder is the payload after its first comma
  when the payload begins with \<open>data:\<close> (a strictly shorter text), and the payload
  itself, unmodified, otherwise; what the decoder makes of that text decides the result
  (its exception is the status of line 40, its bytes go on to line 42). A payload that
  begins with \<open>data:\<close> and has no comma is answered, without a call of the decoder,
  with a status that begins with \<open>Error: Decoding Base64 failed\<close>.
\<close>

theorem prefix_stripped_iff_data:
  "process_frame L fm image_data =
     (if startswith image_data ''data:''
      then if CHR '','' \<in> set image_data
           then (case b64decode L (after_comma image_data) of
                   Inl e \<Rightarrow> Inr (PyStr (''Error: Decoding Base64 failed - '' @ e))
                 | Inr img_bytes \<Rightarrow> estimate_pose L fm img_bytes)
           else Inr (PyStr (''Error: Decoding Base64 failed'' @
                            '' - not enough values to unpack (expected 2, got 1)''))
      else (case b64decode L image_data of
              Inl e \<Rightarrow> Inr (PyStr (''Error: Decoding Base64 failed - '' @ e))
            | Inr img_bytes \<Rightarrow> estimate_pose L fm img_bytes)) \<and>
   (CHR '','' \<in> set image_data \<longrightarrow> length (after_comma image_data) < length image_data)"
  by (simp add: process_frame_def strip_prefix_def split_comma_1_def after_comma_def [symmetric]
      after_comma_shorter)

theorem prefix_stripped_iff_data_witness:
  "startswith ''data:image/jpeg;base64,AAAA'' ''data:'' \<and>
   CHR '','' \<in> set ''data:image/jpeg;base64,AAAA'' \<and>
   after_comma ''data:image/jpeg;base64,AAAA'' = ''AAAA'' \<and>
   length (after_comma ''data:image/jpeg;base64,AAAA'') < length ''data:image/jpeg;base64,AAAA'' \<and>
   b64decode stub_libs ''AAAA'' = Inr (map of_char ''AAAA'') \<and>
   process_frame stub_libs (Pose 1 2 3) ''data:image/jpeg;base64,AAAA'' =
     estimate_pose stub_libs (Pose 1 2 3) (map of_char ''AAAA'') \<and>
   after_comma ''data:image/jpeg;base64,AA!A'' = ''AA!A'' \<and>
   b64decode stub_libs ''AA!A'' = Inl ''Incorrect padding'' \<and>
   process_frame stub_libs (Pose 1 2 3) ''data:image/jpeg;base64,AA!A'' =
     Inr (PyStr ''Error: Decoding Base64 failed - Incorrect padding'') \<and>
   \<not> startswith ''AAAA'' ''data:'' \<and>
   process_frame stub_libs (Pose 1 2 3) ''AAAA'' =
     estimate_pose stub_libs (Pose 1 2 3) (map of_char ''AAAA'') \<and>
   startswith ''data:image/jpeg;base64'' ''data:'' \<and>
   CHR '','' \<notin> set ''data:image/jpeg;base64'' \<and>
   process_frame stub_libs (Pose 1 2 3) ''data:image/jpeg;base64'' =
     Inr (PyStr ''Error: Decoding Base64 failed - not enough values to unpack (expected 2, got 1)'')"
proof -
  have a: "after_comma ''data:image/jpeg;base64,AAAA'' = ''AAAA''"
    "after_comma ''data:image/jpeg;base64,AA!A'' = ''AA!A''"
    by (simp_all add: after_comma_def)
  have s: "startswith ''data:image/jpeg;base64,AAAA'' ''data:''"
    "startswith ''data:image/jpeg;base64,AA!A'' ''data:''"
    "\<not> startswith ''AAAA'' ''data:''"
    "startswith ''data:image/jpeg;base64'' ''data:''"
    by (simp_all add: startswith_def)
  have d: "b64decode stub_libs ''AAAA'' = Inr (map of_char ''AAAA'')"
    "b64decode stub_libs ''AA!A'' = Inl ''Incorrect padding''"
    by (simp_all add: stub_libs_def stub_b64decode_def)
  from prefix_stripped_iff_data[of stub_libs "Pose 1 2 3" "''data:image/jpeg;base64,AAAA''"]
    prefix_stripped_iff_data[of stub_libs "Pose 1 2 3" "''data:image/jpeg;base64,AA!A''"]
    prefix_stripped_iff_data[of stub_libs "Pose 1 2 3" "''AAAA''"]
    prefix_stripped_iff_data[of stub_libs "Pose 1 2 3" "''data:image/jpeg;base64''"]
    a s d
  show ?thesis by simp
qed
end
